theory Spec2Isabelle
  imports Complex_Main "HOL-Library.Sublist"
begin

section \<open>JavaScript values and errors\<close>

text \<open>
  The program is one browser script (\<^verbatim>\<open>src/file.js\<close>).  Its numbers are modelled as
  reals: every comparison the script makes is exact on the numbers it holds, and a
  decimal literal such as \<^verbatim>\<open>23.69\<close> stands for the same number in the script and here.
  A string is a list of code units below 256 (\<^typ>\<open>char\<close>), so queries are Latin-1 text.

  Data that arrives from the analysis service is parsed JSON and untyped; it is
  modelled by \<open>jsval\<close>.  Objects are property lists read with \<^const>\<open>map_of\<close>.
\<close>

datatype jsval =
    JUndefined
  | JNull
  | JBool bool
  | JNum real
  | JStr string
  | JArr "jsval list"
  | JObj "(string \<times> jsval) list"

text \<open>
  What the script can throw, or receive as a rejected promise: a \<^verbatim>\<open>TypeError\<close> from a
  property read or a method call on a value that does not have it, the
  \<^verbatim>\<open>Error('Failed to fetch data')\<close> of line 169, the rejection of \<^verbatim>\<open>fetch\<close> (a transport
  failure), and the rejection of \<^verbatim>\<open>response.json()\<close> (a body that is not JSON).
\<close>

datatype error = TypeError | FailedToFetch | NetworkFailure | JsonSyntaxError

definition ebind :: "error + 'a \<Rightarrow> ('a \<Rightarrow> error + 'b) \<Rightarrow> error + 'b" where
  "ebind r f = (case r of Inl e \<Rightarrow> Inl e | Inr v \<Rightarrow> f v)"

text \<open>
  \<^verbatim>\<open>v.k\<close> for the property names the script reads (\<^verbatim>\<open>weather\<close>, \<^verbatim>\<open>length\<close>, ...):
  reading a property of \<^verbatim>\<open>undefined\<close> or \<^verbatim>\<open>null\<close> throws; an object yields the property
  or \<^verbatim>\<open>undefined\<close>; arrays and strings have \<^verbatim>\<open>length\<close>; every other read is
  \<^verbatim>\<open>undefined\<close>.
\<close>

fun get_prop :: "jsval \<Rightarrow> string \<Rightarrow> error + jsval" where
  "get_prop JUndefined k = Inl TypeError"
| "get_prop JNull k = Inl TypeError"
| "get_prop (JObj kvs) k = Inr (case map_of kvs k of None \<Rightarrow> JUndefined | Some v \<Rightarrow> v)"
| "get_prop (JArr xs) k = Inr (if k = ''length'' then JNum (real (length xs)) else JUndefined)"
| "get_prop (JStr s) k = Inr (if k = ''length'' then JNum (real (length s)) else JUndefined)"
| "get_prop (JNum n) k = Inr JUndefined"
| "get_prop (JBool b) k = Inr JUndefined"

text \<open>Truthiness, as \<^verbatim>\<open>?:\<close>, \<^verbatim>\<open>&&\<close> and \<^verbatim>\<open>||\<close> test it (JSON holds no NaN).\<close>

fun truthy :: "jsval \<Rightarrow> bool" where
  "truthy JUndefined = False"
| "truthy JNull = False"
| "truthy (JBool b) = b"
| "truthy (JNum n) = (n \<noteq> 0)"
| "truthy (JStr s) = (s \<noteq> [])"
| "truthy (JArr xs) = True"
| "truthy (JObj kvs) = True"

text \<open>
  Conversion of a value to a primitive, which a template hole, \<^verbatim>\<open>join\<close> and a
  comparison perform, calls the methods \<^verbatim>\<open>toString\<close> and \<^verbatim>\<open>valueOf\<close> of an object.  An
  object parsed from JSON whose own property \<^verbatim>\<open>toString\<close> hides the inherited method
  cannot be converted, and the conversion throws; an array is converted by joining the
  conversions of its elements.
\<close>

fun unprintable :: "jsval \<Rightarrow> bool" where
  "unprintable (JObj kvs) \<longleftrightarrow> map_of kvs ''toString'' \<noteq> None"
| "unprintable (JArr xs) \<longleftrightarrow> list_ex unprintable xs"
| "unprintable v \<longleftrightarrow> False"

text \<open>\<^verbatim>\<open>${v}\<close>: the hole holds the text of \<open>v\<close>; the model keeps \<open>v\<close>.\<close>

definition interpolate :: "jsval \<Rightarrow> error + jsval" where
  "interpolate v = (if unprintable v then Inl TypeError else Inr v)"

text \<open>\<^verbatim>\<open>${v.k}\<close>.\<close>

definition hole :: "jsval \<Rightarrow> string \<Rightarrow> error + jsval" where
  "hole v k = ebind (get_prop v k) interpolate"

text \<open>
  \<^verbatim>\<open>v > 0\<close>.  On \<^verbatim>\<open>undefined\<close> the comparison is false (NaN), \<^verbatim>\<open>null\<close> counts as 0 and
  \<^verbatim>\<open>true\<close> as 1.  A string, array or object operand is first converted to a number by
  the language; on the values that can be converted at all, that conversion is the
  parameter \<open>to_number\<close> (\<open>None\<close> for NaN).
\<close>

fun js_gt0 :: "(jsval \<Rightarrow> real option) \<Rightarrow> jsval \<Rightarrow> error + bool" where
  "js_gt0 to_number (JNum n) = Inr (n > 0)"
| "js_gt0 to_number (JBool b) = Inr b"
| "js_gt0 to_number JUndefined = Inr False"
| "js_gt0 to_number JNull = Inr False"
| "js_gt0 to_number v =
     (if unprintable v then Inl TypeError
      else Inr (case to_number v of None \<Rightarrow> False | Some n \<Rightarrow> n > 0))"

text \<open>
  \<^verbatim>\<open>v.toFixed(4)\<close>: only a number has the method.  The popup shows the number rounded
  to four decimals; the model keeps the number.
\<close>

fun toFixed :: "jsval \<Rightarrow> error + real" where
  "toFixed (JNum n) = Inr n"
| "toFixed v = Inl TypeError"

section \<open>The geofence\<close>

text \<open>Line 149: the click handler rejects a point when this holds.\<close>

definition click_outside :: "real \<Rightarrow> real \<Rightarrow> bool" where
  "click_outside lat lon \<longleftrightarrow> lat < 23.69 \<or> lat > 36.98 \<or> lon < 60.87 \<or> lon > 75.85"

text \<open>Line 199: the search accepts an explicit coordinate when this holds.\<close>

definition search_inside :: "real \<Rightarrow> real \<Rightarrow> bool" where
  "search_inside lat lon \<longleftrightarrow> lat \<ge> 23.69 \<and> lat \<le> 36.98 \<and> lon \<ge> 60.87 \<and> lon \<le> 75.85"

section \<open>Demo data\<close>

text \<open>
  \<^verbatim>\<open>createDemoData(lat, lon)\<close>, lines 305-346.  \<open>rnd k\<close> is the value of the \<open>k\<close>-th call
  of \<^verbatim>\<open>Math.random()\<close> (the object literal evaluates them top to bottom) and \<open>now\<close> is
  \<^verbatim>\<open>new Date().toISOString()\<close>.
\<close>

definition createDemoData :: "real \<Rightarrow> real \<Rightarrow> (nat \<Rightarrow> real) \<Rightarrow> string \<Rightarrow> jsval" where
  "createDemoData lat lon rnd now = JObj [
     (''location'', JObj [
        (''latitude'', JNum lat),
        (''longitude'', JNum lon),
        (''region'', JStr (if lat > 31 then ''Punjab'' else if lat > 27 then ''Sindh'' else ''Balochistan''))]),
     (''weather'', JObj [
        (''temperature'', JNum (25 + rnd 0 * 15)),
        (''humidity'', JNum (40 + rnd 1 * 40)),
        (''rainfall'', JNum (rnd 2 * 10)),
        (''wind_speed'', JNum (5 + rnd 3 * 15)),
        (''date'', JStr now)]),
     (''soil'', JObj [
        (''ph'', JNum (6.5 + rnd 4 * 2)),
        (''organic_matter'', JNum (1 + rnd 5 * 2)),
        (''nitrogen'', JNum (0.02 + rnd 6 * 0.05)),
        (''phosphorus'', JNum (8 + rnd 7 * 15)),
        (''potassium'', JNum (100 + rnd 8 * 150)),
        (''soil_type'', JStr ''Alluvial'')]),
     (''crop_recommendations'', JArr [
        JObj [
          (''crop_name'', JStr ''Wheat''),
          (''suitability_score'', JNum (7 + rnd 9 * 2)),
          (''irrigation_need'', JNum 450),
          (''fertilizer_npk'', JStr ''120-60-60''),
          (''season'', JStr ''Rabi''),
          (''planting_months'', JArr [JStr ''November'', JStr ''December''])],
        JObj [
          (''crop_name'', JStr ''Rice''),
          (''suitability_score'', JNum (6 + rnd 10 * 2)),
          (''irrigation_need'', JNum 1200),
          (''fertilizer_npk'', JStr ''120-90-60''),
          (''season'', JStr ''Kharif''),
          (''planting_months'', JArr [JStr ''May'', JStr ''June''])]])]"

text \<open>\<^verbatim>\<open>Math.random()\<close> returns a number in the half-open interval from 0 to 1.\<close>

definition random_source :: "(nat \<Rightarrow> real) \<Rightarrow> bool" where
  "random_source rnd \<longleftrightarrow> (\<forall>k. 0 \<le> rnd k \<and> rnd k < 1)"

section \<open>The popup\<close>

text \<open>
  \<^verbatim>\<open>createPopupContent(data, isCached = false)\<close>, lines 235-303, returns an HTML string:
  a fixed template with holes.  The model returns the contents of the holes, in the
  order of the template, and not the markup around them.  A hole that the template
  fills with a property of the payload holds that value, whose text the page shows; the
  two coordinates hold the arguments of \<^verbatim>\<open>toFixed(4)\<close>.
\<close>

datatype badge = CachedBadge | NoBadge

text \<open>
  The \<^verbatim>\<open>Plant:\<close> line of a crop: \<^verbatim>\<open>planting_months.join(', ')\<close> of an array, or the text
  \<^verbatim>\<open>N/A\<close>.
\<close>

datatype plant_text = Joined "jsval list" | NotAvailable

record crop_entry =
  e_crop_name :: jsval
  e_suitability_score :: jsval
  e_irrigation_need :: jsval
  e_fertilizer_npk :: jsval
  e_season :: jsval
  e_plant :: plant_text

text \<open>
  \<^verbatim>\<open>cropsHtml\<close>: the entries that \<^verbatim>\<open>recommendations.map(...)\<close> renders, joined, or the one
  block \<^verbatim>\<open>No suitable crops found for this location.\<close> of line 260.
\<close>

datatype crops_html = CropEntries "crop_entry list" | NoSuitableCrops

record popup =
  p_cacheBadge :: badge
  p_region :: jsval
  p_latitude :: real
  p_longitude :: real
  p_temperature :: jsval
  p_humidity :: jsval
  p_rainfall :: jsval
  p_wind_speed :: jsval
  p_ph :: jsval
  p_soil_type :: jsval
  p_nitrogen :: jsval
  p_phosphorus :: jsval
  p_potassium :: jsval
  p_organic_matter :: jsval
  p_cropsHtml :: crops_html

text \<open>
  \<^verbatim>\<open>crop.planting_months ? crop.planting_months.join(', ') : 'N/A'\<close> (line 255): a truthy
  value that is not an array has no \<^verbatim>\<open>join\<close>, and the call throws; \<^verbatim>\<open>join\<close> converts
  each element to text.
\<close>

fun plant_line :: "jsval \<Rightarrow> error + plant_text" where
  "plant_line (JArr months) =
     (if list_ex unprintable months then Inl TypeError else Inr (Joined months))"
| "plant_line v = (if truthy v then Inl TypeError else Inr NotAvailable)"

text \<open>The arrow function of lines 247-257, applied to one element of the array.\<close>

definition render_crop :: "jsval \<Rightarrow> error + crop_entry" where
  "render_crop crop =
     ebind (hole crop ''crop_name'') (\<lambda>crop_name.
     ebind (hole crop ''suitability_score'') (\<lambda>score.
     ebind (hole crop ''irrigation_need'') (\<lambda>irrigation.
     ebind (hole crop ''fertilizer_npk'') (\<lambda>npk.
     ebind (hole crop ''season'') (\<lambda>season.
     ebind (get_prop crop ''planting_months'') (\<lambda>months.
     ebind (plant_line months) (\<lambda>plant.
     Inr \<lparr> e_crop_name = crop_name, e_suitability_score = score,
           e_irrigation_need = irrigation, e_fertilizer_npk = npk,
           e_season = season, e_plant = plant \<rparr>)))))))"

text \<open>\<^verbatim>\<open>Array.prototype.map\<close> with a callback that may throw: the first throw ends it.\<close>

fun map_crops :: "jsval list \<Rightarrow> error + crop_entry list" where
  "map_crops [] = Inr []"
| "map_crops (crop # crops) =
     ebind (render_crop crop) (\<lambda>e. ebind (map_crops crops) (\<lambda>es. Inr (e # es)))"

text \<open>
  \<^verbatim>\<open>recommendations.map(...)\<close> (line 247): only an array has \<^verbatim>\<open>map\<close>; parsed JSON
  holds no function, so on every other value the call throws.
\<close>

fun call_map :: "jsval \<Rightarrow> error + crop_entry list" where
  "call_map (JArr crops) = map_crops crops"
| "call_map v = Inl TypeError"

text \<open>Lines 245-261.\<close>

definition crops_block :: "(jsval \<Rightarrow> real option) \<Rightarrow> jsval \<Rightarrow> error + crops_html" where
  "crops_block to_number recommendations =
     (if truthy recommendations then
        ebind (get_prop recommendations ''length'') (\<lambda>len.
        ebind (js_gt0 to_number len) (\<lambda>positive.
          if positive
          then ebind (call_map recommendations) (\<lambda>es. Inr (CropEntries es))
          else Inr NoSuitableCrops))
      else Inr NoSuitableCrops)"

definition createPopupContent ::
  "(jsval \<Rightarrow> real option) \<Rightarrow> jsval \<Rightarrow> jsval \<Rightarrow> error + popup" where
  "createPopupContent to_number data isCached0 =
     (let isCached = (if isCached0 = JUndefined then JBool False else isCached0) in
      ebind (get_prop data ''weather'') (\<lambda>weather.
      ebind (get_prop data ''soil'') (\<lambda>soil.
      ebind (get_prop data ''crop_recommendations'') (\<lambda>recommendations.
      ebind (get_prop data ''location'') (\<lambda>location.
      let cacheBadge = (if truthy isCached then CachedBadge else NoBadge) in
      ebind (crops_block to_number recommendations) (\<lambda>cropsHtml.
      ebind (get_prop location ''region'') (\<lambda>region0.
      ebind (interpolate (if truthy region0 then region0 else JStr ''Pakistan'')) (\<lambda>region.
      ebind (get_prop location ''latitude'') (\<lambda>latitude.
      ebind (toFixed latitude) (\<lambda>lat4.
      ebind (get_prop location ''longitude'') (\<lambda>longitude.
      ebind (toFixed longitude) (\<lambda>lon4.
      ebind (hole weather ''temperature'') (\<lambda>temperature.
      ebind (hole weather ''humidity'') (\<lambda>humidity.
      ebind (hole weather ''rainfall'') (\<lambda>rainfall.
      ebind (hole weather ''wind_speed'') (\<lambda>wind_speed.
      ebind (hole soil ''ph'') (\<lambda>ph.
      ebind (hole soil ''soil_type'') (\<lambda>soil_type.
      ebind (hole soil ''nitrogen'') (\<lambda>nitrogen.
      ebind (hole soil ''phosphorus'') (\<lambda>phosphorus.
      ebind (hole soil ''potassium'') (\<lambda>potassium.
      ebind (hole soil ''organic_matter'') (\<lambda>organic_matter.
      Inr \<lparr> p_cacheBadge = cacheBadge,
            p_region = region,
            p_latitude = lat4, p_longitude = lon4,
            p_temperature = temperature, p_humidity = humidity,
            p_rainfall = rainfall, p_wind_speed = wind_speed,
            p_ph = ph, p_soil_type = soil_type, p_nitrogen = nitrogen,
            p_phosphorus = phosphorus, p_potassium = potassium,
            p_organic_matter = organic_matter,
            p_cropsHtml = cropsHtml \<rparr>))))))))))))))))))))))"

section \<open>Effects of the handlers\<close>

text \<open>
  What a handler does to the page, in the order it does it.  A marker carries the text
  of its popup: the coordinate pair of line 202 or the city and province of line 215.
\<close>

datatype marker_text = CoordinatesText real real | CityText string string

datatype effect =
    PreventDefault
  | StopPropagation
  | Alert string
  | OpenLoadingPopup real real
  | FetchAnalysis real real
  | ConsoleError error
  | SetContent popup
  | SetView real real nat
  | AddMarker real real marker_text
  | ClearSearchInput

section \<open>The click handler\<close>

text \<open>
  What the request of line 160 comes back with: the promise rejects (no response), or
  a response arrives with its \<^verbatim>\<open>ok\<close> flag and a body that \<^verbatim>\<open>response.json()\<close> parses or
  fails to parse (\<open>None\<close>).
\<close>

datatype fetch_outcome = Rejected | Responded bool "jsval option"

text \<open>The \<^verbatim>\<open>try\<close> block, lines 159-178, after the request has come back.\<close>

definition try_block :: "(jsval \<Rightarrow> real option) \<Rightarrow> fetch_outcome \<Rightarrow> error + popup" where
  "try_block to_number outcome =
     (case outcome of
        Rejected \<Rightarrow> Inl NetworkFailure
      | Responded ok body \<Rightarrow>
          if \<not> ok then Inl FailedToFetch
          else (case body of
                  None \<Rightarrow> Inl JsonSyntaxError
                | Some result \<Rightarrow>
                    ebind (get_prop result ''cached'') (\<lambda>isCached.
                    ebind (get_prop result ''data'') (\<lambda>data.
                    createPopupContent to_number data isCached))))"

text \<open>
  The handler of lines 142-185.  Its result is an error when one leaves the handler,
  and the effects otherwise.
\<close>

definition click_handler ::
  "(jsval \<Rightarrow> real option) \<Rightarrow> real \<Rightarrow> real \<Rightarrow> fetch_outcome \<Rightarrow> (nat \<Rightarrow> real) \<Rightarrow> string
     \<Rightarrow> error + effect list" where
  "click_handler to_number lat lon outcome rnd now =
     (if click_outside lat lon then
        Inr [PreventDefault, StopPropagation, Alert ''Please click within Pakistan boundaries!'']
      else
        (case try_block to_number outcome of
           Inr popupContent \<Rightarrow>
             Inr [PreventDefault, StopPropagation, OpenLoadingPopup lat lon,
                  FetchAnalysis lat lon, SetContent popupContent]
         | Inl e \<Rightarrow>
             ebind (createPopupContent to_number (createDemoData lat lon rnd now) (JBool False))
               (\<lambda>popupContent.
                  Inr [PreventDefault, StopPropagation, OpenLoadingPopup lat lon,
                       FetchAnalysis lat lon, ConsoleError e, SetContent popupContent])))"

section \<open>Strings\<close>

text \<open>
  White space as \<^verbatim>\<open>String.prototype.trim\<close>, \<^verbatim>\<open>parseFloat\<close> and the class \<^verbatim>\<open>\s\<close> of a
  regular expression see it, among the code units below 256: tab, line feed, vertical
  tab, form feed, carriage return, space and no-break space.
\<close>

definition is_space :: "char \<Rightarrow> bool" where
  "is_space c \<longleftrightarrow> c \<in> set [CHR 0x09, CHR 0x0A, CHR 0x0B, CHR 0x0C, CHR 0x0D, CHR 0x20, CHR 0xA0]"

text \<open>The class \<^verbatim>\<open>\d\<close>.\<close>

definition is_digit :: "char \<Rightarrow> bool" where
  "is_digit c \<longleftrightarrow> c \<in> set ''0123456789''"

definition trim :: "string \<Rightarrow> string" where
  "trim s = rev (dropWhile is_space (rev (dropWhile is_space s)))"

text \<open>
  \<^verbatim>\<open>toLowerCase\<close> on Latin-1 text works code unit by code unit: \<^verbatim>\<open>A\<close> to \<^verbatim>\<open>Z\<close> and the
  accented capitals 0xC0 to 0xDE (the multiplication sign 0xD7 apart) move up by 32.
\<close>

definition lower_char :: "char \<Rightarrow> char" where
  "lower_char c =
     (let n = (of_char c :: nat) in
      if (65 \<le> n \<and> n \<le> 90) \<or> (192 \<le> n \<and> n \<le> 222 \<and> n \<noteq> 215) then char_of (n + 32) else c)"

definition toLowerCase :: "string \<Rightarrow> string" where
  "toLowerCase s = map lower_char s"

text \<open>\<^verbatim>\<open>s.includes(q)\<close>: \<open>q\<close> starts at some position of \<open>s\<close>.\<close>

fun js_includes :: "string \<Rightarrow> string \<Rightarrow> bool" where
  "js_includes [] q \<longleftrightarrow> q = []"
| "js_includes (c # cs) q \<longleftrightarrow> prefix q (c # cs) \<or> js_includes cs q"

text \<open>
  \<^verbatim>\<open>parseFloat\<close> on the strings the script passes to it, which hold only a minus sign,
  digits and a point (the captures of the pattern below): leading white space and a
  sign are skipped, then the longest run \<^verbatim>\<open>digits [. digits]\<close> is read.  \<open>None\<close> is NaN.
  Exponents and the word \<^verbatim>\<open>Infinity\<close>, which such strings cannot hold, are not read.
\<close>

definition digit_value :: "char \<Rightarrow> nat" where
  "digit_value c = of_char c - 48"

definition digits_value :: "string \<Rightarrow> nat" where
  "digits_value ds = foldl (\<lambda>acc c. 10 * acc + digit_value c) 0 ds"

definition parseFloat :: "string \<Rightarrow> real option" where
  "parseFloat s =
     (let s1 = dropWhile is_space s;
          negative = (case s1 of [] \<Rightarrow> False | c # cs \<Rightarrow> c = CHR ''-'');
          s2 = (case s1 of [] \<Rightarrow> [] | c # cs \<Rightarrow> if c = CHR ''-'' \<or> c = CHR ''+'' then cs else s1);
          int_part = takeWhile is_digit s2;
          rest = dropWhile is_digit s2;
          frac_part = (case rest of [] \<Rightarrow> []
                       | c # cs \<Rightarrow> if c = CHR ''.'' then takeWhile is_digit cs else []);
          magnitude = real (digits_value int_part)
                      + real (digits_value frac_part) / 10 ^ length frac_part
      in if int_part = [] \<and> frac_part = [] then None
         else Some (if negative then - magnitude else magnitude))"

section \<open>The coordinate pattern\<close>

text \<open>
  Line 193 matches the query against \<^verbatim>\<open>/(-?\d+\.?\d*),\s*(-?\d+\.?\d*)/\<close>.  The pattern is
  a sequence of single-character atoms under the quantifiers \<^verbatim>\<open>?\<close>, \<^verbatim>\<open>*\<close> and \<^verbatim>\<open>+\<close>,
  with two capturing groups; \<open>GroupEdge\<close> marks where a group opens or closes.
\<close>

datatype atom = Lit char | DigitClass | SpaceClass

fun atom_ok :: "atom \<Rightarrow> char \<Rightarrow> bool" where
  "atom_ok (Lit x) c \<longleftrightarrow> c = x"
| "atom_ok DigitClass c \<longleftrightarrow> is_digit c"
| "atom_ok SpaceClass c \<longleftrightarrow> is_space c"

datatype item = One atom | Opt atom | Star atom | Plus atom | GroupEdge

definition coord_pattern :: "item list" where
  "coord_pattern =
     [GroupEdge, Opt (Lit (CHR ''-'')), Plus DigitClass, Opt (Lit (CHR ''.'')), Star DigitClass, GroupEdge,
      One (Lit (CHR '','')), Star SpaceClass,
      GroupEdge, Opt (Lit (CHR ''-'')), Plus DigitClass, Opt (Lit (CHR ''.'')), Star DigitClass, GroupEdge]"

text \<open>
  The backtracking matcher of the language, anchored at the start of \<open>s\<close>.  A greedy
  quantifier first tries to take one more character and, when the rest of the pattern
  then fails, tries again without it.  The result lists the text that was still unread
  at each group edge.
\<close>

fun match_here :: "item list \<Rightarrow> string \<Rightarrow> string list option" where
  "match_here [] s = Some []"
| "match_here (GroupEdge # items) s = map_option (Cons s) (match_here items s)"
| "match_here (One a # items) [] = None"
| "match_here (One a # items) (c # cs) = (if atom_ok a c then match_here items cs else None)"
| "match_here (Plus a # items) [] = None"
| "match_here (Plus a # items) (c # cs) =
     (if atom_ok a c then match_here (Star a # items) cs else None)"
| "match_here (Opt a # items) [] = match_here items []"
| "match_here (Opt a # items) (c # cs) =
     (if atom_ok a c then
        (case match_here items cs of Some marks \<Rightarrow> Some marks | None \<Rightarrow> match_here items (c # cs))
      else match_here items (c # cs))"
| "match_here (Star a # items) [] = match_here items []"
| "match_here (Star a # items) (c # cs) =
     (if atom_ok a c then
        (case match_here (Star a # items) cs of Some marks \<Rightarrow> Some marks
         | None \<Rightarrow> match_here items (c # cs))
      else match_here items (c # cs))"

text \<open>
  \<^verbatim>\<open>String.prototype.match\<close> with a pattern that has no flags: the first position, from
  the left, at which the pattern matches.
\<close>

fun regex_exec :: "item list \<Rightarrow> string \<Rightarrow> string list option" where
  "regex_exec items [] = match_here items []"
| "regex_exec items (c # cs) =
     (case match_here items (c # cs) of Some marks \<Rightarrow> Some marks | None \<Rightarrow> regex_exec items cs)"

text \<open>The text of a group, from what was unread where it opened and where it closed.\<close>

definition group_text :: "string \<Rightarrow> string \<Rightarrow> string" where
  "group_text at_open at_close = take (length at_open - length at_close) at_open"

text \<open>\<^verbatim>\<open>coordMatch\<close>: \<open>None\<close> is \<^verbatim>\<open>null\<close>; otherwise the two captures.\<close>

definition coordMatch :: "string \<Rightarrow> (string \<times> string) option" where
  "coordMatch query =
     (case regex_exec coord_pattern query of
        Some [o1, c1, o2, c2] \<Rightarrow> Some (group_text o1 c1, group_text o2 c2)
      | _ \<Rightarrow> None)"

section \<open>The search\<close>

record city =
  c_name :: string
  c_lat :: real
  c_lon :: real
  c_province :: string

definition majorCities :: "city list" where
  "majorCities = [
     \<lparr> c_name = ''Karachi'', c_lat = 24.8607, c_lon = 67.0011, c_province = ''Sindh'' \<rparr>,
     \<lparr> c_name = ''Lahore'', c_lat = 31.5804, c_lon = 74.3587, c_province = ''Punjab'' \<rparr>,
     \<lparr> c_name = ''Faisalabad'', c_lat = 31.4504, c_lon = 73.1350, c_province = ''Punjab'' \<rparr>,
     \<lparr> c_name = ''Rawalpindi'', c_lat = 33.5651, c_lon = 73.0169, c_province = ''Punjab'' \<rparr>,
     \<lparr> c_name = ''Multan'', c_lat = 30.1575, c_lon = 71.5249, c_province = ''Punjab'' \<rparr>,
     \<lparr> c_name = ''Hyderabad'', c_lat = 25.3960, c_lon = 68.3578, c_province = ''Sindh'' \<rparr>,
     \<lparr> c_name = ''Peshawar'', c_lat = 34.0151, c_lon = 71.5249, c_province = ''KPK'' \<rparr>,
     \<lparr> c_name = ''Quetta'', c_lat = 30.1798, c_lon = 66.9750, c_province = ''Balochistan'' \<rparr>]"

text \<open>
  \<^verbatim>\<open>searchLocation()\<close>, lines 187-224, on the registry \<open>cities\<close> (the script's is
  \<^const>\<open>majorCities\<close>) and the text \<open>input\<close> of the search box.  The function returns
  \<^verbatim>\<open>false\<close> on every path; the model returns what it did.  A comparison with NaN is
  false, so a capture that did not parse would take the \<^verbatim>\<open>else\<close> branch of line 204.
  Line 188 reads the ambient \<^verbatim>\<open>event\<close>: the function is taken to run while an event is
  being dispatched, as its two callers (the form and the key handler) run it.
\<close>

definition searchLocation :: "city list \<Rightarrow> string \<Rightarrow> effect list" where
  "searchLocation cities input =
     (let query = trim input in
      if query = [] then [PreventDefault]
      else
        (case coordMatch query of
           Some (g1, g2) \<Rightarrow>
             (case (parseFloat g1, parseFloat g2) of
                (Some lat, Some lon) \<Rightarrow>
                  if search_inside lat lon then
                    [PreventDefault, SetView lat lon 12,
                     AddMarker lat lon (CoordinatesText lat lon), ClearSearchInput]
                  else
                    [PreventDefault, Alert ''Coordinates outside Pakistan boundaries!'',
                     ClearSearchInput]
              | _ \<Rightarrow>
                  [PreventDefault, Alert ''Coordinates outside Pakistan boundaries!'',
                   ClearSearchInput])
         | None \<Rightarrow>
             (case find (\<lambda>c. js_includes (toLowerCase (c_name c)) (toLowerCase query)) cities of
                Some city \<Rightarrow>
                  [PreventDefault, SetView (c_lat city) (c_lon city) 10,
                   AddMarker (c_lat city) (c_lon city) (CityText (c_name city) (c_province city)),
                   ClearSearchInput]
              | None \<Rightarrow>
                  [PreventDefault, Alert ''City not found! Try: Karachi, Lahore, Islamabad, etc.'',
                   ClearSearchInput])))"

section \<open>Notions the statements use\<close>

text \<open>The messages a handler shows to the user, in order.\<close>

fun alerts :: "effect list \<Rightarrow> string list" where
  "alerts [] = []"
| "alerts (Alert msg # es) = msg # alerts es"
| "alerts (e # es) = alerts es"

text \<open>\<^verbatim>\<open>result.location.region\<close>, as the popup reads it.\<close>

definition region_of :: "jsval \<Rightarrow> error + jsval" where
  "region_of result = ebind (get_prop result ''location'') (\<lambda>location. get_prop location ''region'')"

text \<open>
  The shape of the data, as the data model of the specification gives it (section 3):
  an analysis result has a location, weather, soil and a sequence of crop
  recommendations, with numeric and textual fields; the envelope of the service pairs
  such a result with a boolean \<^verbatim>\<open>cached\<close>.  These predicates are read off the
  specification, not off the script, which checks none of this.
\<close>

fun is_number :: "jsval \<Rightarrow> bool" where
  "is_number (JNum n) = True"
| "is_number v = False"

fun is_str :: "jsval \<Rightarrow> bool" where
  "is_str (JStr s) = True"
| "is_str v = False"

fun is_bool :: "jsval \<Rightarrow> bool" where
  "is_bool (JBool b) = True"
| "is_bool v = False"

fun is_object :: "jsval \<Rightarrow> bool" where
  "is_object (JObj kvs) = True"
| "is_object v = False"

text \<open>A field that is not there: the key is missing, or its value is \<^verbatim>\<open>null\<close>.\<close>

fun absent :: "jsval \<Rightarrow> bool" where
  "absent JUndefined = True"
| "absent JNull = True"
| "absent v = False"

text \<open>The field \<open>k\<close> of \<open>v\<close>; \<^verbatim>\<open>undefined\<close> when \<open>v\<close> has no fields to read.\<close>

definition field :: "jsval \<Rightarrow> string \<Rightarrow> jsval" where
  "field v k = (case get_prop v k of Inl e \<Rightarrow> JUndefined | Inr x \<Rightarrow> x)"

fun is_str_array :: "jsval \<Rightarrow> bool" where
  "is_str_array (JArr xs) = list_all is_str xs"
| "is_str_array v = False"

definition well_formed_crop :: "jsval \<Rightarrow> bool" where
  "well_formed_crop c \<longleftrightarrow>
     is_object c \<and> is_str (field c ''crop_name'') \<and> is_number (field c ''suitability_score'')
     \<and> is_number (field c ''irrigation_need'') \<and> is_str (field c ''fertilizer_npk'')
     \<and> is_str (field c ''season'') \<and> is_str_array (field c ''planting_months'')"

text \<open>The sequence of recommendations may be empty, or absent altogether.\<close>

fun well_formed_crops :: "jsval \<Rightarrow> bool" where
  "well_formed_crops (JArr crops) = list_all well_formed_crop crops"
| "well_formed_crops v = absent v"

definition well_formed_result :: "jsval \<Rightarrow> bool" where
  "well_formed_result d \<longleftrightarrow>
     is_object d
     \<and> is_object (field d ''location'')
     \<and> is_number (field (field d ''location'') ''latitude'')
     \<and> is_number (field (field d ''location'') ''longitude'')
     \<and> is_str (field (field d ''location'') ''region'')
     \<and> is_object (field d ''weather'')
     \<and> is_number (field (field d ''weather'') ''temperature'')
     \<and> is_number (field (field d ''weather'') ''humidity'')
     \<and> is_number (field (field d ''weather'') ''rainfall'')
     \<and> is_number (field (field d ''weather'') ''wind_speed'')
     \<and> is_object (field d ''soil'')
     \<and> is_number (field (field d ''soil'') ''ph'')
     \<and> is_str (field (field d ''soil'') ''soil_type'')
     \<and> is_number (field (field d ''soil'') ''nitrogen'')
     \<and> is_number (field (field d ''soil'') ''phosphorus'')
     \<and> is_number (field (field d ''soil'') ''potassium'')
     \<and> is_number (field (field d ''soil'') ''organic_matter'')
     \<and> well_formed_crops (field d ''crop_recommendations'')"

definition well_formed_envelope :: "jsval \<Rightarrow> bool" where
  "well_formed_envelope env \<longleftrightarrow>
     is_object env \<and> is_bool (field env ''cached'') \<and> well_formed_result (field env ''data'')"

text \<open>The entry that one well-formed recommendation is rendered as.\<close>

definition entry_of :: "jsval \<Rightarrow> crop_entry" where
  "entry_of c =
     \<lparr> e_crop_name = field c ''crop_name'',
       e_suitability_score = field c ''suitability_score'',
       e_irrigation_need = field c ''irrigation_need'',
       e_fertilizer_npk = field c ''fertilizer_npk'',
       e_season = field c ''season'',
       e_plant = (case field c ''planting_months'' of JArr months \<Rightarrow> Joined months
                  | _ \<Rightarrow> NotAvailable) \<rparr>"

text \<open>
  Two inputs for concrete runs: the conversion under which no string, array or object
  is a number, and the random source that returns the same value at every call.
\<close>

definition never_a_number :: "jsval \<Rightarrow> real option" where
  "never_a_number v = None"

definition fixed_source :: "real \<Rightarrow> nat \<Rightarrow> real" where
  "fixed_source r k = r"

text \<open>
  Envelopes on which the rendering certainly throws: the payload, or its location,
  weather or soil, is not there, or a coordinate is not a number.
\<close>

definition unrenderable :: "jsval \<Rightarrow> bool" where
  "unrenderable env \<longleftrightarrow>
     absent (field env ''data'')
     \<or> absent (field (field env ''data'') ''location'')
     \<or> absent (field (field env ''data'') ''weather'')
     \<or> absent (field (field env ''data'') ''soil'')
     \<or> \<not> is_number (field (field (field env ''data'') ''location'') ''latitude'')
     \<or> \<not> is_number (field (field (field env ''data'') ''location'') ''longitude'')"

text \<open>
  A number as the coordinate pattern captures it: an optional minus sign, a digit,
  further digits, and then either nothing more or a point followed by digits only.
\<close>

definition strip_minus :: "string \<Rightarrow> string" where
  "strip_minus s = (case s of [] \<Rightarrow> [] | c # cs \<Rightarrow> if c = CHR ''-'' then cs else s)"

definition num_shape :: "string \<Rightarrow> bool" where
  "num_shape s \<longleftrightarrow>
     (case strip_minus s of [] \<Rightarrow> False
      | c # cs \<Rightarrow> is_digit c \<and>
          (case dropWhile is_digit cs of [] \<Rightarrow> True
           | d # fs \<Rightarrow> d = CHR ''.'' \<and> list_all is_digit fs))"

text \<open>
  At position \<open>k\<close> of \<open>s\<close> stand the number \<open>n1\<close>, a comma, white space (possibly none)
  and the number \<open>n2\<close>.
\<close>

definition holds_pair :: "string \<Rightarrow> nat \<Rightarrow> string \<Rightarrow> string \<Rightarrow> bool" where
  "holds_pair s k n1 n2 \<longleftrightarrow>
     k \<le> length s \<and> num_shape n1 \<and> num_shape n2
     \<and> (\<exists>ws post. list_all is_space ws \<and> drop k s = n1 @ CHR '','' # ws @ n2 @ post)"

text \<open>
  Containment up to case: some stretch of \<open>name\<close> and the query have the same lower-case
  form.
\<close>

definition ci_contains :: "string \<Rightarrow> string \<Rightarrow> bool" where
  "ci_contains name q \<longleftrightarrow> (\<exists>u. sublist u name \<and> toLowerCase u = toLowerCase q)"

section \<open>The pattern as a scanner\<close>

text \<open>
  The next definitions serve the proofs only.  \<open>scan_number\<close> reads the longest number at
  the start of a string and returns what follows it; the lemmas below show that the
  backtracking matcher, on the coordinate pattern, finds exactly what this scanner
  finds.
\<close>

definition skip_frac :: "string \<Rightarrow> string" where
  "skip_frac s = dropWhile is_digit (case s of [] \<Rightarrow> [] | c # cs \<Rightarrow> if c = CHR ''.'' then cs else s)"

definition scan_number :: "string \<Rightarrow> string option" where
  "scan_number s =
     (case strip_minus s of [] \<Rightarrow> None
      | c # cs \<Rightarrow> if is_digit c then Some (skip_frac (dropWhile is_digit cs)) else None)"

definition number_items :: "item list" where
  "number_items = [Opt (Lit (CHR ''-'')), Plus DigitClass, Opt (Lit (CHR ''.'')), Star DigitClass]"

definition tail_items :: "item list" where
  "tail_items = GroupEdge # One (Lit (CHR '','')) # Star SpaceClass # GroupEdge # number_items @ [GroupEdge]"

section \<open>Lemmas\<close>

lemma fixed_source_apply [simp]: "fixed_source r k = r"
  by (simp add: fixed_source_def)

subsection \<open>Errors and the popup\<close>

lemma ebind_Inr_iff: "ebind r f = Inr p \<longleftrightarrow> (\<exists>v. r = Inr v \<and> f v = Inr p)"
  by (cases r) (simp_all add: ebind_def)

lemma ebind_Inr [simp]: "ebind (Inr v) f = f v"
  by (simp add: ebind_def)

lemma ebind_Inl [simp]: "ebind (Inl e) f = Inl e"
  by (simp add: ebind_def)

lemma get_prop_object: "is_object v \<Longrightarrow> get_prop v k = Inr (field v k)"
  by (cases v) (simp_all add: field_def)

lemma is_numberE: "is_number v \<Longrightarrow> (\<And>n. v = JNum n \<Longrightarrow> P) \<Longrightarrow> P"
  by (cases v) simp_all

lemma printable_number: "is_number v \<Longrightarrow> \<not> unprintable v"
  by (cases v) simp_all

lemma printable_str: "is_str v \<Longrightarrow> \<not> unprintable v"
  by (cases v) simp_all

lemma printable_strs: "list_all is_str xs \<Longrightarrow> \<not> list_ex unprintable xs"
  by (induction xs) (simp_all add: printable_str)

lemma hole_number: "is_object v \<Longrightarrow> is_number (field v k) \<Longrightarrow> hole v k = Inr (field v k)"
  by (simp add: hole_def get_prop_object interpolate_def printable_number)

lemma hole_str: "is_object v \<Longrightarrow> is_str (field v k) \<Longrightarrow> hole v k = Inr (field v k)"
  by (simp add: hole_def get_prop_object interpolate_def printable_str)

lemma is_str_array_plant:
  "is_str_array v \<Longrightarrow> plant_line v = Inr (case v of JArr months \<Rightarrow> Joined months | _ \<Rightarrow> NotAvailable)"
  by (cases v) (simp_all add: printable_strs)

lemma render_well_formed_crop: "well_formed_crop c \<Longrightarrow> render_crop c = Inr (entry_of c)"
  by (simp add: well_formed_crop_def render_crop_def entry_of_def get_prop_object is_str_array_plant
      hole_number hole_str)

lemma map_well_formed_crops:
  "list_all well_formed_crop crops \<Longrightarrow> map_crops crops = Inr (map entry_of crops)"
  by (induction crops) (simp_all add: render_well_formed_crop)

lemma crops_block_well_formed:
  "well_formed_crops v \<Longrightarrow>
     crops_block to_number v =
       Inr (case v of JArr [] \<Rightarrow> NoSuitableCrops
            | JArr (c # cs) \<Rightarrow> CropEntries (map entry_of (c # cs))
            | _ \<Rightarrow> NoSuitableCrops)"
  by (cases v) (auto simp: crops_block_def map_well_formed_crops split: list.splits)

lemma popup_well_formed:
  assumes "well_formed_result d"
  shows "\<exists>p. createPopupContent to_number d cached = Inr p
      \<and> p_cacheBadge p = (if truthy cached then CachedBadge else NoBadge)
      \<and> p_cropsHtml p = (case field d ''crop_recommendations'' of JArr [] \<Rightarrow> NoSuitableCrops
            | JArr (c # cs) \<Rightarrow> CropEntries (map entry_of (c # cs))
            | _ \<Rightarrow> NoSuitableCrops)"
proof -
  have "is_number (field (field d ''location'') ''latitude'')"
    and "is_number (field (field d ''location'') ''longitude'')"
    using assms by (simp_all add: well_formed_result_def)
  then obtain la lo where
    "field (field d ''location'') ''latitude'' = JNum la"
    "field (field d ''location'') ''longitude'' = JNum lo"
    by (metis is_numberE)
  then show ?thesis
    using assms
    by (simp add: well_formed_result_def createPopupContent_def Let_def get_prop_object
        crops_block_well_formed hole_number hole_str interpolate_def printable_str)
qed

lemma get_prop_InrD: "get_prop v k = Inr x \<Longrightarrow> \<not> absent v \<and> field v k = x"
  by (cases v) (simp_all add: field_def)

lemma hole_InrD: "hole v k = Inr x \<Longrightarrow> \<not> absent v"
  by (cases v) (simp_all add: hole_def)

lemma toFixed_InrD: "toFixed v = Inr x \<Longrightarrow> is_number v"
  by (cases v) simp_all

lemma well_formed_demo: "well_formed_result (createDemoData lat lon rnd now)"
  by (simp add: well_formed_result_def createDemoData_def field_def well_formed_crop_def)

lemma popup_InrD:
  assumes "createPopupContent to_number d c = Inr p"
  shows "\<not> absent d \<and> \<not> absent (field d ''weather'') \<and> \<not> absent (field d ''soil'')
     \<and> \<not> absent (field d ''location'')
     \<and> is_number (field (field d ''location'') ''latitude'')
     \<and> is_number (field (field d ''location'') ''longitude'')"
proof -
  from assms obtain weather soil location latitude longitude la lo t ph where
    w: "get_prop d ''weather'' = Inr weather" and
    s: "get_prop d ''soil'' = Inr soil" and
    l: "get_prop d ''location'' = Inr location" and
    la: "get_prop location ''latitude'' = Inr latitude" "toFixed latitude = Inr la" and
    lo: "get_prop location ''longitude'' = Inr longitude" "toFixed longitude = Inr lo" and
    t: "hole weather ''temperature'' = Inr t" and
    ph: "hole soil ''ph'' = Inr ph"
    unfolding createPopupContent_def Let_def ebind_Inr_iff by blast
  show ?thesis
    using get_prop_InrD [OF w] get_prop_InrD [OF s] get_prop_InrD [OF l]
      get_prop_InrD [OF la(1)] get_prop_InrD [OF lo(1)] hole_InrD [OF t] hole_InrD [OF ph]
      toFixed_InrD [OF la(2)] toFixed_InrD [OF lo(2)]
    by simp
qed

lemma unrenderable_throws:
  assumes "unrenderable env"
  shows "\<exists>e. try_block to_number (Responded True (Some env)) = Inl e"
proof (cases "try_block to_number (Responded True (Some env))")
  case (Inl e)
  then show ?thesis by blast
next
  case (Inr p)
  then obtain c d where
    d: "get_prop env ''data'' = Inr d" and
    p: "createPopupContent to_number d c = Inr p"
    unfolding try_block_def by (auto simp: ebind_Inr_iff)
  have "field env ''data'' = d"
    using get_prop_InrD [OF d] by simp
  then have False
    using popup_InrD [OF p] assms by (auto simp: unrenderable_def)
  then show ?thesis ..
qed

subsection \<open>The matcher on the coordinate pattern\<close>

lemma not_digit_chars [simp]:
  "\<not> is_digit (CHR ''-'')" "\<not> is_digit (CHR ''.'')" "\<not> is_digit (CHR '','')"
  by (simp_all add: is_digit_def)

lemma space_not_digit: "is_space c \<Longrightarrow> \<not> is_digit c"
  by (auto simp: is_space_def is_digit_def)

lemma space_not_punct: "is_space c \<Longrightarrow> c \<noteq> CHR ''-'' \<and> c \<noteq> CHR ''.'' \<and> c \<noteq> CHR '',''"
  by (auto simp: is_space_def)

lemma match_star_last: "match_here [Star DigitClass, GroupEdge] s = Some [dropWhile is_digit s]"
  by (induction s) auto

lemma match_frac_last:
  "match_here [Opt (Lit (CHR ''.'')), Star DigitClass, GroupEdge] s = Some [skip_frac s]"
  by (cases s) (auto simp: skip_frac_def match_star_last simp del: match_here.simps(9,10))

lemma match_digits_last:
  "match_here [Star DigitClass, Opt (Lit (CHR ''.'')), Star DigitClass, GroupEdge] s
     = Some [skip_frac (dropWhile is_digit s)]"
proof (induction s)
  case Nil
  show ?case by (simp add: skip_frac_def)
next
  case (Cons c cs)
  show ?case
  proof (cases "is_digit c")
    case True
    then show ?thesis using Cons by simp
  next
    case False
    then show ?thesis
      using match_frac_last [of "c # cs"] by (simp del: match_here.simps(7,8))
  qed
qed

lemma match_last_group:
  "match_here (GroupEdge # number_items @ [GroupEdge]) s = map_option (\<lambda>r. [s, r]) (scan_number s)"
proof (cases s)
  case Nil
  then show ?thesis by (simp add: number_items_def scan_number_def strip_minus_def)
next
  case (Cons c cs)
  show ?thesis
  proof (cases "c = CHR ''-''")
    case True
    then show ?thesis
      using Cons
      by (cases cs) (auto simp: number_items_def scan_number_def strip_minus_def match_digits_last
          simp del: match_here.simps(9,10))
  next
    case False
    then show ?thesis
      using Cons
      by (auto simp: number_items_def scan_number_def strip_minus_def match_digits_last
          simp del: match_here.simps(9,10))
  qed
qed

lemma coord_pattern_split: "coord_pattern = GroupEdge # number_items @ tail_items"
  by (simp add: coord_pattern_def number_items_def tail_items_def)

lemma scan_number_space: "is_space c \<Longrightarrow> scan_number (c # cs) = None"
  using space_not_digit [of c] space_not_punct [of c]
  by (simp add: scan_number_def strip_minus_def)

lemma match_star_space:
  "match_here (Star SpaceClass # GroupEdge # number_items @ [GroupEdge]) s
     = match_here (GroupEdge # number_items @ [GroupEdge]) (dropWhile is_space s)"
proof (induction s)
  case Nil
  show ?case by simp
next
  case (Cons c cs)
  show ?case
  proof (cases "is_space c")
    case True
    have "match_here (GroupEdge # number_items @ [GroupEdge]) (c # cs) = None"
      unfolding match_last_group using True by (simp add: scan_number_space)
    then show ?thesis using True Cons
      by (simp split: option.splits)
  next
    case False
    then show ?thesis by simp
  qed
qed

lemma match_tail:
  "match_here tail_items s =
     (case s of [] \<Rightarrow> None
      | c # cs \<Rightarrow> if c = CHR '','' then
          map_option (\<lambda>r. [s, dropWhile is_space cs, r]) (scan_number (dropWhile is_space cs))
        else None)"
proof (cases s)
  case Nil
  then show ?thesis by (simp add: tail_items_def)
next
  case (Cons c cs)
  have "match_here tail_items (c # cs) =
      (if c = CHR '','' then
         map_option (Cons (c # cs)) (match_here (Star SpaceClass # GroupEdge # number_items @ [GroupEdge]) cs)
       else None)"
    by (simp add: tail_items_def del: match_here.simps(9,10))
  then show ?thesis
    using Cons by (simp add: match_star_space match_last_group option.map_comp comp_def
        del: match_here.simps)
qed

lemma match_star_digit:
  assumes fails: "\<And>c cs. c \<noteq> CHR '','' \<Longrightarrow> match_here K (c # cs) = None"
  shows "match_here (Star DigitClass # K) s = match_here K (dropWhile is_digit s)"
proof (induction s)
  case Nil
  show ?case by simp
next
  case (Cons c cs)
  show ?case
  proof (cases "is_digit c")
    case True
    then have "c \<noteq> CHR '',''" by auto
    then have "match_here K (c # cs) = None" by (rule fails)
    then show ?thesis using True Cons by (simp split: option.splits)
  next
    case False
    then show ?thesis by simp
  qed
qed

lemma match_opt_point:
  assumes fails: "\<And>c cs. c \<noteq> CHR '','' \<Longrightarrow> match_here K (c # cs) = None"
  shows "match_here (Opt (Lit (CHR ''.'')) # Star DigitClass # K) s = match_here K (skip_frac s)"
proof (cases s)
  case Nil
  then show ?thesis by (simp add: skip_frac_def)
next
  case (Cons c cs)
  show ?thesis
  proof (cases "c = CHR ''.''")
    case True
    have "match_here K (CHR ''.'' # cs) = None" by (rule fails) simp
    then show ?thesis
      using True Cons match_star_digit [of K, OF fails]
      by (simp add: skip_frac_def del: match_here.simps(9,10) split: option.splits)
  next
    case False
    then show ?thesis
      using Cons match_star_digit [of K, OF fails]
      by (simp add: skip_frac_def del: match_here.simps(9,10))
  qed
qed

lemma skip_frac_no_digit:
  assumes "\<And>fs. dropWhile is_digit u \<noteq> CHR ''.'' # fs"
  shows "skip_frac (dropWhile is_digit u) = dropWhile is_digit u"
proof (cases "dropWhile is_digit u")
  case Nil
  show ?thesis unfolding Nil by (simp add: skip_frac_def)
next
  case (Cons a list)
  then have "a \<noteq> CHR ''.''" using assms by auto
  then have "skip_frac (a # list) = dropWhile is_digit (a # list)"
    by (simp add: skip_frac_def)
  then have "skip_frac (dropWhile is_digit u) = dropWhile is_digit (dropWhile is_digit u)"
    using Cons by simp
  then show ?thesis by simp
qed

lemma match_digits_point:
  assumes fails: "\<And>c cs. c \<noteq> CHR '','' \<Longrightarrow> match_here K (c # cs) = None"
  shows "match_here (Star DigitClass # Opt (Lit (CHR ''.'')) # Star DigitClass # K) s
           = match_here K (skip_frac (dropWhile is_digit s))"
proof (induction s)
  case Nil
  show ?case by (simp add: skip_frac_def)
next
  case (Cons c cs)
  note opt = match_opt_point [of K, OF fails]
  show ?case
  proof (cases "is_digit c")
    case False
    then show ?thesis using opt [of "c # cs"] by (simp del: match_here.simps(7,8))
  next
    case True
    define t where "t = dropWhile is_digit cs"
    have later: "match_here K (skip_frac t) = None \<Longrightarrow> match_here K t = None"
    proof (cases "\<exists>fs. t = CHR ''.'' # fs")
      case True
      then obtain fs where "t = CHR ''.'' # fs" by blast
      then show ?thesis using fails [of "CHR ''.''" fs] by simp
    next
      case False
      then have "skip_frac t = t" using skip_frac_no_digit [of cs] t_def by blast
      then show "match_here K (skip_frac t) = None \<Longrightarrow> match_here K t = None" by simp
    qed
    have "skip_frac (c # cs) = t"
      using True by (auto simp: skip_frac_def t_def)
    then have fallback: "match_here (Opt (Lit (CHR ''.'')) # Star DigitClass # K) (c # cs) = match_here K t"
      using opt [of "c # cs"] by (simp del: match_here.simps)
    show ?thesis
      using True Cons later fallback
      by (simp add: t_def del: match_here.simps(7,8) split: option.splits)
  qed
qed

lemma match_number_then:
  assumes fails: "\<And>c cs. c \<noteq> CHR '','' \<Longrightarrow> match_here K (c # cs) = None"
  shows "match_here (number_items @ K) s =
           (case scan_number s of None \<Rightarrow> None | Some r \<Rightarrow> match_here K r)"
proof -
  note dp = match_digits_point [of K, OF fails]
  have plus: "match_here (Plus DigitClass # Opt (Lit (CHR ''.'')) # Star DigitClass # K) u =
      (case u of [] \<Rightarrow> None | c # cs \<Rightarrow>
         if is_digit c then match_here K (skip_frac (dropWhile is_digit cs)) else None)" for u
    by (cases u) (simp_all add: dp del: match_here.simps(9,10))
  show ?thesis
  proof (cases s)
    case Nil
    then show ?thesis by (simp add: number_items_def scan_number_def strip_minus_def)
  next
    case (Cons c cs)
    show ?thesis
    proof (cases "c = CHR ''-''")
      case True
      then show ?thesis using Cons
        by (simp add: number_items_def scan_number_def strip_minus_def plus
            del: match_here.simps(5,6) split: option.splits list.splits)
    next
      case False
      then show ?thesis using Cons
        by (simp add: number_items_def scan_number_def strip_minus_def plus
            del: match_here.simps(5,6) split: option.splits list.splits)
    qed
  qed
qed

lemma match_coord_pattern:
  "match_here coord_pattern s =
     (case scan_number s of None \<Rightarrow> None
      | Some r1 \<Rightarrow>
          (case r1 of [] \<Rightarrow> None
           | c # cs \<Rightarrow> if c = CHR '','' then
               map_option (\<lambda>r2. [s, r1, dropWhile is_space cs, r2]) (scan_number (dropWhile is_space cs))
             else None))"
proof -
  have fails: "\<And>c cs. c \<noteq> CHR '','' \<Longrightarrow> match_here tail_items (c # cs) = None"
    by (simp add: match_tail)
  show ?thesis
    unfolding coord_pattern_split
    by (simp add: match_number_then [of tail_items, OF fails] match_tail option.map_comp comp_def
        split: option.splits list.splits)
qed

subsection \<open>Numbers and the scanner\<close>

lemma group_text_append [simp]: "group_text (n @ r) r = n"
  by (simp add: group_text_def)

lemma suffix_skip_frac: "suffix (skip_frac s) s"
proof (cases s)
  case Nil
  then show ?thesis by (simp add: skip_frac_def)
next
  case (Cons c cs)
  show ?thesis
  proof (cases "c = CHR ''.''")
    case True
    have "suffix (dropWhile is_digit cs) (c # cs)"
      using suffix_dropWhile [of is_digit cs] by (rule suffix_ConsI)
    then show ?thesis using Cons True by (simp add: skip_frac_def)
  next
    case False
    then show ?thesis
      using Cons suffix_dropWhile [of is_digit "c # cs"] by (simp add: skip_frac_def)
  qed
qed

lemma dropWhile_all: "list_all P xs \<Longrightarrow> dropWhile P (xs @ ys) = dropWhile P ys"
  by (induction xs) simp_all

lemma dropWhile_stop: "list_all P xs \<Longrightarrow> \<not> P y \<Longrightarrow> dropWhile P (xs @ y # ys) = y # ys"
  by (simp add: dropWhile_all)

lemma list_all_takeWhile: "list_all P (takeWhile P xs)"
  by (induction xs) simp_all

lemma strip_minus_split: "\<exists>sign. s = sign @ strip_minus s \<and> (sign = [] \<or> sign = ''-'')"
  by (cases s) (auto simp: strip_minus_def)

lemma strip_minus_signed:
  "sign = [] \<or> sign = ''-'' \<Longrightarrow> is_digit c \<Longrightarrow> strip_minus (sign @ c # rest) = c # rest"
  by (auto simp: strip_minus_def)

lemma num_shape_iff:
  "num_shape n \<longleftrightarrow>
     (\<exists>sign c ds frac. n = sign @ c # ds @ frac \<and> (sign = [] \<or> sign = ''-'') \<and> is_digit c
        \<and> list_all is_digit ds
        \<and> (frac = [] \<or> (\<exists>fs. frac = CHR ''.'' # fs \<and> list_all is_digit fs)))"
proof
  assume shape: "num_shape n"
  obtain sign where sign: "n = sign @ strip_minus n" "sign = [] \<or> sign = ''-''"
    using strip_minus_split by blast
  from shape obtain c cs where ccs: "strip_minus n = c # cs" and c: "is_digit c"
    and rest: "case dropWhile is_digit cs of [] \<Rightarrow> True | d # fs \<Rightarrow> d = CHR ''.'' \<and> list_all is_digit fs"
    by (auto simp: num_shape_def split: list.splits)
  have cs: "cs = takeWhile is_digit cs @ dropWhile is_digit cs" by simp
  have "n = sign @ c # takeWhile is_digit cs @ dropWhile is_digit cs"
    using sign(1) ccs by simp
  moreover have "dropWhile is_digit cs = [] \<or> (\<exists>fs. dropWhile is_digit cs = CHR ''.'' # fs \<and> list_all is_digit fs)"
    using rest by (cases "dropWhile is_digit cs") auto
  ultimately show "\<exists>sign c ds frac. n = sign @ c # ds @ frac \<and> (sign = [] \<or> sign = ''-'') \<and> is_digit c
        \<and> list_all is_digit ds
        \<and> (frac = [] \<or> (\<exists>fs. frac = CHR ''.'' # fs \<and> list_all is_digit fs))"
    using sign(2) c list_all_takeWhile [of is_digit cs] by blast
next
  assume "\<exists>sign c ds frac. n = sign @ c # ds @ frac \<and> (sign = [] \<or> sign = ''-'') \<and> is_digit c
        \<and> list_all is_digit ds
        \<and> (frac = [] \<or> (\<exists>fs. frac = CHR ''.'' # fs \<and> list_all is_digit fs))"
  then obtain sign c ds frac where n: "n = sign @ c # ds @ frac"
    and sign: "sign = [] \<or> sign = ''-''" and c: "is_digit c" and ds: "list_all is_digit ds"
    and frac: "frac = [] \<or> (\<exists>fs. frac = CHR ''.'' # fs \<and> list_all is_digit fs)"
    by blast
  have sm: "strip_minus n = c # ds @ frac"
    unfolding n using strip_minus_signed [OF sign c] by simp
  from frac show "num_shape n"
  proof
    assume "frac = []"
    moreover have dn: "dropWhile is_digit ds = []"
      using ds by (simp add: list_all_iff)
    ultimately show ?thesis using c by (simp add: num_shape_def sm dn)
  next
    assume "\<exists>fs. frac = CHR ''.'' # fs \<and> list_all is_digit fs"
    then obtain fs where "frac = CHR ''.'' # fs" "list_all is_digit fs" by blast
    then show ?thesis using sm c ds by (simp add: num_shape_def dropWhile_stop)
  qed
qed

lemma scan_number_SomeD:
  assumes "scan_number s = Some r"
  shows "\<exists>n. s = n @ r \<and> num_shape n"
proof -
  obtain sign where sign: "s = sign @ strip_minus s" "sign = [] \<or> sign = ''-''"
    using strip_minus_split by blast
  from assms obtain c cs where ccs: "strip_minus s = c # cs" and c: "is_digit c"
    and r: "r = skip_frac (dropWhile is_digit cs)"
    by (auto simp: scan_number_def split: list.splits if_splits)
  define ds where "ds = takeWhile is_digit cs"
  have ds: "list_all is_digit ds" by (simp add: ds_def list_all_takeWhile)
  have cs: "cs = ds @ dropWhile is_digit cs" by (simp add: ds_def)
  show ?thesis
  proof (cases "\<exists>fs. dropWhile is_digit cs = CHR ''.'' # fs")
    case True
    then obtain fs where fs: "dropWhile is_digit cs = CHR ''.'' # fs" by blast
    have r': "r = dropWhile is_digit fs" unfolding r fs by (simp add: skip_frac_def)
    define n where "n = sign @ c # ds @ CHR ''.'' # takeWhile is_digit fs"
    have "cs = ds @ CHR ''.'' # takeWhile is_digit fs @ dropWhile is_digit fs"
      using cs fs by simp
    then have "s = n @ r"
      using sign(1) ccs r' by (simp add: n_def)
    moreover have "num_shape n"
      unfolding num_shape_iff n_def using sign(2) c ds list_all_takeWhile [of is_digit fs] by blast
    ultimately show ?thesis by blast
  next
    case False
    then have r': "r = dropWhile is_digit cs"
      unfolding r using skip_frac_no_digit [of cs] by blast
    define n where "n = sign @ c # ds @ []"
    have "s = n @ r"
      using sign(1) ccs cs r' by (simp add: n_def)
    moreover have "num_shape n"
      unfolding num_shape_iff n_def using sign(2) c ds by blast
    ultimately show ?thesis by blast
  qed
qed

lemma scan_number_shape:
  assumes "num_shape n"
  shows "scan_number (n @ rest) = Some (dropWhile is_digit rest)
       \<or> scan_number (n @ rest) = Some (skip_frac (dropWhile is_digit rest))"
proof -
  from assms obtain sign c ds frac where n: "n = sign @ c # ds @ frac"
    and sign: "sign = [] \<or> sign = ''-''" and c: "is_digit c" and ds: "list_all is_digit ds"
    and frac: "frac = [] \<or> (\<exists>fs. frac = CHR ''.'' # fs \<and> list_all is_digit fs)"
    unfolding num_shape_iff by blast
  have sm: "strip_minus (n @ rest) = c # ds @ frac @ rest"
    unfolding n using strip_minus_signed [OF sign c, of "ds @ frac @ rest"] by simp
  from frac show ?thesis
  proof
    assume "frac = []"
    then show ?thesis using c ds by (simp add: scan_number_def sm dropWhile_all)
  next
    assume "\<exists>fs. frac = CHR ''.'' # fs \<and> list_all is_digit fs"
    then obtain fs where "frac = CHR ''.'' # fs" "list_all is_digit fs" by blast
    then show ?thesis using c ds
      by (simp add: scan_number_def sm dropWhile_stop skip_frac_def dropWhile_all)
  qed
qed

lemma scan_number_suffix:
  assumes "num_shape n"
  shows "\<exists>r. scan_number (n @ rest) = Some r \<and> suffix r rest"
proof -
  have a: "suffix (dropWhile is_digit rest) rest" by (rule suffix_dropWhile)
  have "suffix (skip_frac (dropWhile is_digit rest)) (dropWhile is_digit rest)"
    by (rule suffix_skip_frac)
  then have b: "suffix (skip_frac (dropWhile is_digit rest)) rest"
    using a by (rule suffix_order.trans)
  show ?thesis using scan_number_shape [OF assms, of rest] a b by auto
qed

lemma scan_number_comma:
  assumes "num_shape n"
  shows "scan_number (n @ CHR '','' # u) = Some (CHR '','' # u)"
  using scan_number_shape [OF assms, of "CHR '','' # u"] by (auto simp: skip_frac_def)

lemma num_shape_no_space:
  assumes "num_shape n"
  shows "n \<noteq> [] \<and> \<not> is_space (hd n) \<and> \<not> is_space (last n)"
proof -
  from assms obtain sign c ds frac where n: "n = sign @ c # ds @ frac"
    and sign: "sign = [] \<or> sign = ''-''" and c: "is_digit c" and ds: "list_all is_digit ds"
    and frac: "frac = [] \<or> (\<exists>fs. frac = CHR ''.'' # fs \<and> list_all is_digit fs)"
    unfolding num_shape_iff by blast
  have "\<forall>x \<in> set n. is_digit x \<or> x = CHR ''-'' \<or> x = CHR ''.''"
    unfolding n using sign c ds frac by (auto simp: list_all_iff)
  then have "\<forall>x \<in> set n. \<not> is_space x"
    using space_not_digit space_not_punct by blast
  moreover have "n \<noteq> []" unfolding n by simp
  ultimately show ?thesis by simp
qed

lemma parseFloat_shape:
  assumes "num_shape n"
  shows "\<exists>v. parseFloat n = Some v"
proof -
  from assms obtain sign c ds frac where n: "n = sign @ c # ds @ frac"
    and sign: "sign = [] \<or> sign = ''-''" and c: "is_digit c"
    unfolding num_shape_iff by blast
  have "\<not> is_space c" "c \<noteq> CHR ''-''" "c \<noteq> CHR ''+''"
    using c space_not_digit by (auto simp: is_digit_def)
  moreover have "\<not> is_space (CHR ''-'')" by (simp add: is_space_def)
  ultimately show ?thesis
    using sign c unfolding n by (auto simp: parseFloat_def Let_def)
qed

subsection \<open>The leftmost match\<close>

lemma regex_exec_SomeD:
  "regex_exec items s = Some m \<Longrightarrow>
     \<exists>k \<le> length s. match_here items (drop k s) = Some m
        \<and> (\<forall>j < k. match_here items (drop j s) = None)"
proof (induction s)
  case Nil
  then show ?case by simp
next
  case (Cons c cs)
  show ?case
  proof (cases "match_here items (c # cs)")
    case (Some m')
    then have "match_here items (drop 0 (c # cs)) = Some m" using Cons.prems by simp
    then show ?thesis by blast
  next
    case None
    then have "regex_exec items cs = Some m" using Cons.prems by simp
    then obtain k where k: "k \<le> length cs" "match_here items (drop k cs) = Some m"
      "\<forall>j < k. match_here items (drop j cs) = None"
      using Cons.IH by blast
    have "\<forall>j < Suc k. match_here items (drop j (c # cs)) = None"
    proof (intro allI impI)
      fix j assume "j < Suc k"
      then show "match_here items (drop j (c # cs)) = None"
        using None k(3) by (cases j) simp_all
    qed
    then show ?thesis
      using k(1,2) by (intro exI [of _ "Suc k"]) simp
  qed
qed

lemma regex_exec_complete:
  "k \<le> length s \<Longrightarrow> match_here items (drop k s) = Some m' \<Longrightarrow> \<exists>m. regex_exec items s = Some m"
proof (induction s arbitrary: k)
  case Nil
  then show ?case by simp
next
  case (Cons c cs)
  show ?case
  proof (cases k)
    case 0
    then show ?thesis using Cons.prems by simp
  next
    case (Suc k')
    then have "\<exists>m. regex_exec items cs = Some m"
      using Cons.prems Cons.IH [of k'] by simp
    then show ?thesis by (cases "match_here items (c # cs)") auto
  qed
qed

lemma dropWhile_space_shape:
  assumes "list_all is_space ws" "num_shape n"
  shows "dropWhile is_space (ws @ n @ post) = n @ post"
proof -
  from num_shape_no_space [OF assms(2)] obtain a m where "n = a # m" "\<not> is_space a"
    by (cases n) auto
  then show ?thesis using assms(1) by (simp add: dropWhile_stop)
qed

lemma match_pair:
  assumes "num_shape n1" "num_shape n2" "list_all is_space ws"
  shows "\<exists>r2. match_here coord_pattern (n1 @ CHR '','' # ws @ n2 @ post)
            = Some [n1 @ CHR '','' # ws @ n2 @ post, CHR '','' # ws @ n2 @ post, n2 @ post, r2]
          \<and> suffix r2 post"
proof -
  obtain r2 where r2: "scan_number (n2 @ post) = Some r2" "suffix r2 post"
    using scan_number_suffix [OF assms(2)] by blast
  show ?thesis
    using r2 scan_number_comma [OF assms(1), of "ws @ n2 @ post"]
      dropWhile_space_shape [OF assms(3) assms(2), of post]
    by (simp add: match_coord_pattern)
qed

lemma match_pairD:
  assumes "match_here coord_pattern t = Some m"
  shows "\<exists>n1 ws n2 r2. t = n1 @ CHR '','' # ws @ n2 @ r2
           \<and> m = [t, CHR '','' # ws @ n2 @ r2, n2 @ r2, r2]
           \<and> num_shape n1 \<and> num_shape n2 \<and> list_all is_space ws"
proof -
  from assms obtain r1 cs r2 where r1: "scan_number t = Some r1" and cs: "r1 = CHR '','' # cs"
    and r2: "scan_number (dropWhile is_space cs) = Some r2"
    and m: "m = [t, r1, dropWhile is_space cs, r2]"
    unfolding match_coord_pattern by (auto split: option.splits list.splits if_splits)
  obtain n1 where n1: "t = n1 @ r1" "num_shape n1"
    using scan_number_SomeD [OF r1] by blast
  obtain n2 where n2: "dropWhile is_space cs = n2 @ r2" "num_shape n2"
    using scan_number_SomeD [OF r2] by blast
  define ws where "ws = takeWhile is_space cs"
  have "cs = ws @ n2 @ r2"
    using n2(1) takeWhile_dropWhile_id [of is_space cs] by (simp add: ws_def)
  moreover have "list_all is_space ws" by (simp add: ws_def list_all_takeWhile)
  ultimately show ?thesis
    using n1 n2 cs m by auto
qed

lemma coordMatch_first_pair:
  assumes "coordMatch s = Some (g1, g2)"
  shows "\<exists>k. holds_pair s k g1 g2
          \<and> (\<forall>j m1 m2. holds_pair s j m1 m2 \<longrightarrow> k \<le> j \<and> (j = k \<longrightarrow> m1 = g1 \<and> prefix m2 g2))"
proof -
  from assms obtain o1 c1 o2 c2 where ex: "regex_exec coord_pattern s = Some [o1, c1, o2, c2]"
    and g: "g1 = group_text o1 c1" "g2 = group_text o2 c2"
    by (auto simp: coordMatch_def split: option.splits list.splits)
  obtain k where k: "k \<le> length s" "match_here coord_pattern (drop k s) = Some [o1, c1, o2, c2]"
    "\<forall>j < k. match_here coord_pattern (drop j s) = None"
    using regex_exec_SomeD [OF ex] by blast
  obtain n1 ws n2 r2 where t: "drop k s = n1 @ CHR '','' # ws @ n2 @ r2"
    and m: "[o1, c1, o2, c2] = [drop k s, CHR '','' # ws @ n2 @ r2, n2 @ r2, r2]"
    and shapes: "num_shape n1" "num_shape n2" "list_all is_space ws"
    using match_pairD [OF k(2)] by blast
  have g1: "g1 = n1" using g(1) m t by simp
  have g2: "g2 = n2" using g(2) m by simp
  have here: "holds_pair s k g1 g2"
    unfolding holds_pair_def g1 g2 using k(1) shapes t by blast
  have first: "k \<le> j \<and> (j = k \<longrightarrow> m1 = g1 \<and> prefix m2 g2)" if hp: "holds_pair s j m1 m2" for j m1 m2
  proof -
    from hp obtain ws' post' where j: "j \<le> length s" and sh: "num_shape m1" "num_shape m2"
      "list_all is_space ws'" and dj: "drop j s = m1 @ CHR '','' # ws' @ m2 @ post'"
      unfolding holds_pair_def by blast
    obtain r2' where mj: "match_here coord_pattern (drop j s)
        = Some [drop j s, CHR '','' # ws' @ m2 @ post', m2 @ post', r2']" and suf: "suffix r2' post'"
      using match_pair [OF sh, of post'] dj by auto
    have kj: "k \<le> j"
    proof (rule ccontr)
      assume "\<not> k \<le> j"
      then have "match_here coord_pattern (drop j s) = None" using k(3) by simp
      then show False using mj by simp
    qed
    have "m1 = g1 \<and> prefix m2 g2" if "j = k"
    proof -
      have "Some [drop k s, CHR '','' # ws' @ m2 @ post', m2 @ post', r2'] = Some [o1, c1, o2, c2]"
        using mj k(2) that by simp
      then have eq: "[drop k s, CHR '','' # ws' @ m2 @ post', m2 @ post', r2']
          = [drop k s, CHR '','' # ws @ n2 @ r2, n2 @ r2, r2]"
        using m by (metis option.inject)
      then have tail: "CHR '','' # ws' @ m2 @ post' = CHR '','' # ws @ n2 @ r2"
        and two: "m2 @ post' = n2 @ r2" and r: "r2' = r2" by auto
      have "m1 @ CHR '','' # ws' @ m2 @ post' = n1 @ CHR '','' # ws' @ m2 @ post'"
        using dj t tail that by simp
      then have "m1 = n1" by simp
      moreover obtain x where "post' = x @ r2" using suf r by (auto simp: suffix_def)
      then have "n2 = m2 @ x" using two by simp
      ultimately show ?thesis using g1 g2 by simp
    qed
    then show ?thesis using kj by blast
  qed
  show ?thesis using here first by blast
qed

lemma coordMatch_complete:
  assumes "holds_pair s k n1 n2"
  shows "\<exists>g1 g2. coordMatch s = Some (g1, g2)"
proof -
  from assms obtain ws post where k: "k \<le> length s" and sh: "num_shape n1" "num_shape n2"
    "list_all is_space ws" and dk: "drop k s = n1 @ CHR '','' # ws @ n2 @ post"
    unfolding holds_pair_def by blast
  obtain r2 where mk: "match_here coord_pattern (drop k s)
        = Some [drop k s, CHR '','' # ws @ n2 @ post, n2 @ post, r2]"
    using match_pair [OF sh, of post] dk by auto
  obtain m where ex: "regex_exec coord_pattern s = Some m"
    using regex_exec_complete [OF k mk] by blast
  obtain j where mj: "match_here coord_pattern (drop j s) = Some m"
    using regex_exec_SomeD [OF ex] by blast
  obtain n1' ws' n2' r2' where "m = [drop j s, CHR '','' # ws' @ n2' @ r2', n2' @ r2', r2']"
    using match_pairD [OF mj] by blast
  then show ?thesis using ex by (simp add: coordMatch_def)
qed

subsection \<open>Trimming keeps a pair\<close>

lemma dropWhile_keeps:
  assumes "X \<noteq> []" "\<not> P (hd X)"
  shows "\<exists>A'. dropWhile P (A @ X @ B) = A' @ X @ B"
proof (cases "\<forall>x \<in> set A. P x")
  case True
  then have "dropWhile P (A @ X @ B) = dropWhile P (X @ B)"
    by (simp add: dropWhile_append2)
  also have "\<dots> = X @ B" using assms by (cases X) simp_all
  finally show ?thesis by (intro exI [of _ "[]"]) simp
next
  case False
  then obtain x where "x \<in> set A" "\<not> P x" by blast
  then have "dropWhile P (A @ X @ B) = dropWhile P A @ X @ B"
    by (rule dropWhile_append1)
  then show ?thesis by blast
qed

lemma trim_keeps:
  assumes "M \<noteq> []" "\<not> is_space (hd M)" "\<not> is_space (last M)"
  shows "\<exists>A' B'. trim (A @ M @ B) = A' @ M @ B'"
proof -
  obtain A' where a: "dropWhile is_space (A @ M @ B) = A' @ M @ B"
    using dropWhile_keeps [of M is_space A B] assms(1,2) by blast
  have "rev M \<noteq> []" "\<not> is_space (hd (rev M))"
    using assms(1,3) by (simp_all add: hd_rev)
  then obtain B'' where b: "dropWhile is_space (rev B @ rev M @ rev A') = B'' @ rev M @ rev A'"
    using dropWhile_keeps [of "rev M" is_space "rev B" "rev A'"] by blast
  have "trim (A @ M @ B) = A' @ M @ rev B''"
    by (simp add: trim_def a b)
  then show ?thesis by blast
qed

lemma holds_pair_trim:
  assumes "holds_pair s k n1 n2"
  shows "\<exists>k'. holds_pair (trim s) k' n1 n2"
proof -
  from assms obtain ws post where sh: "num_shape n1" "num_shape n2" "list_all is_space ws"
    and dk: "drop k s = n1 @ CHR '','' # ws @ n2 @ post"
    unfolding holds_pair_def by blast
  define M where "M = n1 @ CHR '','' # ws @ n2"
  have n1: "n1 \<noteq> []" "\<not> is_space (hd n1)" and n2: "n2 \<noteq> []" "\<not> is_space (last n2)"
    using num_shape_no_space sh(1,2) by blast+
  have M: "M \<noteq> []" "\<not> is_space (hd M)" "\<not> is_space (last M)"
    using n1 n2 by (simp_all add: M_def)
  have "s = take k s @ M @ post"
    using dk append_take_drop_id [of k s] by (simp add: M_def)
  then obtain A' B' where t: "trim s = A' @ M @ B'"
    using trim_keeps [OF M, of "take k s" post] by metis
  have "drop (length A') (trim s) = n1 @ CHR '','' # ws @ n2 @ B'"
    by (simp add: t M_def)
  moreover have "length A' \<le> length (trim s)" by (simp add: t)
  ultimately have "holds_pair (trim s) (length A') n1 n2"
    unfolding holds_pair_def using sh by blast
  then show ?thesis by blast
qed

lemma holds_pair_nonempty: "holds_pair s k n1 n2 \<Longrightarrow> s \<noteq> []"
  by (auto simp: holds_pair_def)

lemma search_coordinates:
  assumes "coordMatch (trim input) = Some (g1, g2)"
  shows "\<exists>lat lon. parseFloat g1 = Some lat \<and> parseFloat g2 = Some lon
     \<and> (\<forall>cities. searchLocation cities input =
          (if search_inside lat lon then
             [PreventDefault, SetView lat lon 12, AddMarker lat lon (CoordinatesText lat lon),
              ClearSearchInput]
           else
             [PreventDefault, Alert ''Coordinates outside Pakistan boundaries!'', ClearSearchInput]))"
proof -
  obtain k where hp: "holds_pair (trim input) k g1 g2"
    using coordMatch_first_pair [OF assms] by blast
  then have ne: "trim input \<noteq> []" by (rule holds_pair_nonempty)
  from hp have "num_shape g1" "num_shape g2" by (simp_all add: holds_pair_def)
  then obtain lat lon where p: "parseFloat g1 = Some lat" "parseFloat g2 = Some lon"
    using parseFloat_shape by blast
  show ?thesis
    using ne assms p by (simp add: searchLocation_def)
qed

subsection \<open>The city lookup\<close>

lemma js_includes_sublist: "js_includes s q \<longleftrightarrow> sublist q s"
  by (induction s) (auto simp: sublist_Cons_right)

lemma sublist_map_iff:
  "sublist (map f q) (map f s) \<longleftrightarrow> (\<exists>u. sublist u s \<and> map f u = map f q)"
proof
  assume "sublist (map f q) (map f s)"
  then obtain ps ss where "map f s = ps @ map f q @ ss" by (auto simp: sublist_def)
  then obtain a u b where "s = a @ u @ b" "map f u = map f q"
    by (metis append_eq_map_conv)
  then show "\<exists>u. sublist u s \<and> map f u = map f q" by (auto simp: sublist_def)
next
  assume "\<exists>u. sublist u s \<and> map f u = map f q"
  then obtain u where "sublist u s" "map f u = map f q" by blast
  then show "sublist (map f q) (map f s)"
    by (metis sublist_def map_append)
qed

lemma includes_ci: "js_includes (toLowerCase name) (toLowerCase q) \<longleftrightarrow> ci_contains name q"
  by (simp add: js_includes_sublist ci_contains_def toLowerCase_def sublist_map_iff)

lemma find_first:
  "\<forall>y \<in> set before. \<not> P y \<Longrightarrow> P x \<Longrightarrow> find P (before @ x # after) = Some x"
  by (induction before) simp_all

lemma find_none: "\<forall>y \<in> set xs. \<not> P y \<Longrightarrow> find P xs = None"
  by (induction xs) simp_all

subsection \<open>Concrete queries\<close>

lemma m100: "coordMatch (trim ''100, 100'') = Some (''100'', ''100'')"
  by code_simp

lemma p100: "parseFloat ''100'' = Some 100"
  by (simp add: parseFloat_def Let_def is_space_def is_digit_def digits_value_def digit_value_def)

lemma match_lahore_coordinates:
  "coordMatch (trim ''31.5804, 74.3587'') = Some (''31.5804'', ''74.3587'')"
  by code_simp

lemma parse_lahore_lat: "parseFloat ''31.5804'' = Some 31.5804"
  by (simp add: parseFloat_def Let_def is_space_def is_digit_def digits_value_def digit_value_def)

lemma parse_lahore_lon: "parseFloat ''74.3587'' = Some 74.3587"
  by (simp add: parseFloat_def Let_def is_space_def is_digit_def digits_value_def digit_value_def)

lemma lahore_trim: "trim ''lahore'' = ''lahore''"
  by code_simp

lemma lahore_no_match: "coordMatch ''lahore'' = None"
  by code_simp

lemma lahore_in_lahore: "js_includes (toLowerCase ''Lahore'') (toLowerCase ''lahore'')"
  by code_simp

lemma lahore_not_in_karachi: "\<not> js_includes (toLowerCase ''Karachi'') (toLowerCase ''lahore'')"
  by code_simp

lemma shape_30_1: "num_shape ''30.1''"
  by (simp add: num_shape_def strip_minus_def is_digit_def)

lemma shape_70_2: "num_shape ''70.2''"
  by (simp add: num_shape_def strip_minus_def is_digit_def)

lemma pair_after_lahore: "holds_pair ''Lahore 30.1,70.2 now'' 7 ''30.1'' ''70.2''"
proof -
  have "\<exists>ws post. list_all is_space ws
      \<and> drop 7 ''Lahore 30.1,70.2 now'' = ''30.1'' @ CHR '','' # ws @ ''70.2'' @ post"
    by (rule exI [of _ "[]"], rule exI [of _ "'' now''"]) simp
  then show ?thesis
    unfolding holds_pair_def using shape_30_1 shape_70_2 by simp
qed

lemma match_after_lahore: "coordMatch (trim ''Lahore 30.1,70.2 now'') = Some (''30.1'', ''70.2'')"
  by code_simp

lemma parse_30_1: "parseFloat ''30.1'' = Some 30.1"
  by (simp add: parseFloat_def Let_def is_space_def is_digit_def digits_value_def digit_value_def)

lemma parse_70_2: "parseFloat ''70.2'' = Some 70.2"
  by (simp add: parseFloat_def Let_def is_space_def is_digit_def digits_value_def digit_value_def)

section \<open>Theorems\<close>

text \<open>
  C1, as the script has it.  For a point inside the geofence, when the request is
  rejected (a transport failure), or the response is not \<^verbatim>\<open>ok\<close>, or its body is not
  JSON, or the envelope is one on which the rendering throws (as it does when the
  payload, its location, weather or soil is missing or \<^verbatim>\<open>null\<close>, or a coordinate is not
  a number), then no error leaves the handler: the error is logged and the popup shows
  the demo data for the clicked point, rendered without the cached badge.  Every other
  envelope, complete or not, is shown as the rendering of its payload with its own
  \<^verbatim>\<open>cached\<close> flag.
\<close>

theorem fallback_on_failure:
  assumes inside: "\<not> click_outside lat lon"
  shows "(outcome = Rejected
           \<or> (\<exists>body. outcome = Responded False body)
           \<or> outcome = Responded True None
           \<or> (\<exists>env. outcome = Responded True (Some env) \<and> unrenderable env)
           \<or> (\<exists>e. try_block to_number outcome = Inl e) \<longrightarrow>
          (\<exists>e p. createPopupContent to_number (createDemoData lat lon rnd now) (JBool False) = Inr p
             \<and> p_cacheBadge p = NoBadge
             \<and> click_handler to_number lat lon outcome rnd now =
                 Inr [PreventDefault, StopPropagation, OpenLoadingPopup lat lon,
                      FetchAnalysis lat lon, ConsoleError e, SetContent p]))
       \<and> (\<forall>env cached data p.
             outcome = Responded True (Some env) \<and> get_prop env ''cached'' = Inr cached
             \<and> get_prop env ''data'' = Inr data
             \<and> createPopupContent to_number data cached = Inr p \<longrightarrow>
             click_handler to_number lat lon outcome rnd now =
               Inr [PreventDefault, StopPropagation, OpenLoadingPopup lat lon,
                    FetchAnalysis lat lon, SetContent p])"
proof (intro conjI impI allI)
  assume failure: "outcome = Rejected
       \<or> (\<exists>body. outcome = Responded False body)
       \<or> outcome = Responded True None
       \<or> (\<exists>env. outcome = Responded True (Some env) \<and> unrenderable env)
       \<or> (\<exists>e. try_block to_number outcome = Inl e)"
  then have "\<exists>e. try_block to_number outcome = Inl e"
  proof (elim disjE exE conjE)
    assume "outcome = Rejected"
    then show ?thesis by (simp add: try_block_def)
  next
    fix body assume "outcome = Responded False body"
    then show ?thesis by (simp add: try_block_def)
  next
    assume "outcome = Responded True None"
    then show ?thesis by (simp add: try_block_def)
  next
    fix env assume "outcome = Responded True (Some env)" "unrenderable env"
    then show ?thesis using unrenderable_throws [of env to_number] by simp
  next
    fix e assume "try_block to_number outcome = Inl e"
    then show ?thesis by blast
  qed
  then obtain e where e: "try_block to_number outcome = Inl e" ..
  obtain p where
    p: "createPopupContent to_number (createDemoData lat lon rnd now) (JBool False) = Inr p"
       "p_cacheBadge p = NoBadge"
    using popup_well_formed [OF well_formed_demo, of to_number lat lon rnd now "JBool False"]
    by auto
  show "\<exists>e p. createPopupContent to_number (createDemoData lat lon rnd now) (JBool False) = Inr p
       \<and> p_cacheBadge p = NoBadge
       \<and> click_handler to_number lat lon outcome rnd now =
           Inr [PreventDefault, StopPropagation, OpenLoadingPopup lat lon, FetchAnalysis lat lon,
                ConsoleError e, SetContent p]"
    using inside e p by (simp add: click_handler_def)
next
  fix env cached data p
  assume "outcome = Responded True (Some env) \<and> get_prop env ''cached'' = Inr cached
             \<and> get_prop env ''data'' = Inr data
             \<and> createPopupContent to_number data cached = Inr p"
  then have "try_block to_number outcome = Inr p"
    by (simp add: try_block_def)
  then show "click_handler to_number lat lon outcome rnd now =
               Inr [PreventDefault, StopPropagation, OpenLoadingPopup lat lon,
                    FetchAnalysis lat lon, SetContent p]"
    using inside by (simp add: click_handler_def)
qed

theorem fallback_on_failure_witness:
  "\<not> click_outside 30 70
   \<and> (\<exists>e p. createPopupContent never_a_number (createDemoData 30 70 (fixed_source (1 / 2)) []) (JBool False) = Inr p
         \<and> p_cacheBadge p = NoBadge
         \<and> click_handler never_a_number 30 70 Rejected (fixed_source (1 / 2)) [] =
             Inr [PreventDefault, StopPropagation, OpenLoadingPopup 30 70, FetchAnalysis 30 70,
                  ConsoleError e, SetContent p])
   \<and> unrenderable (JObj [(''cached'', JBool True)])
   \<and> (\<exists>e p. createPopupContent never_a_number (createDemoData 30 70 (fixed_source (1 / 2)) []) (JBool False) = Inr p
         \<and> p_cacheBadge p = NoBadge
         \<and> click_handler never_a_number 30 70
               (Responded True (Some (JObj [(''cached'', JBool True)]))) (fixed_source (1 / 2)) [] =
             Inr [PreventDefault, StopPropagation, OpenLoadingPopup 30 70, FetchAnalysis 30 70,
                  ConsoleError e, SetContent p])
   \<and> (\<exists>p. createPopupContent never_a_number (createDemoData 31 72 (fixed_source 0) []) (JBool True) = Inr p
         \<and> click_handler never_a_number 30 70
               (Responded True (Some (JObj [(''cached'', JBool True),
                                            (''data'', createDemoData 31 72 (fixed_source 0) [])])))
               (fixed_source (1 / 2)) [] =
             Inr [PreventDefault, StopPropagation, OpenLoadingPopup 30 70, FetchAnalysis 30 70,
                  SetContent p])"
proof -
  have inside: "\<not> click_outside 30 70"
    by (simp add: click_outside_def)
  have u: "unrenderable (JObj [(''cached'', JBool True)])"
    by (simp add: unrenderable_def field_def)
  note fact = fallback_on_failure [OF inside, of _ never_a_number "fixed_source (1 / 2)" "[]"]
  have r1: "\<exists>e p. createPopupContent never_a_number (createDemoData 30 70 (fixed_source (1 / 2)) []) (JBool False) = Inr p
         \<and> p_cacheBadge p = NoBadge
         \<and> click_handler never_a_number 30 70 Rejected (fixed_source (1 / 2)) [] =
             Inr [PreventDefault, StopPropagation, OpenLoadingPopup 30 70, FetchAnalysis 30 70,
                  ConsoleError e, SetContent p]"
    using fact [of Rejected] by simp
  have r2: "\<exists>e p. createPopupContent never_a_number (createDemoData 30 70 (fixed_source (1 / 2)) []) (JBool False) = Inr p
         \<and> p_cacheBadge p = NoBadge
         \<and> click_handler never_a_number 30 70
               (Responded True (Some (JObj [(''cached'', JBool True)]))) (fixed_source (1 / 2)) [] =
             Inr [PreventDefault, StopPropagation, OpenLoadingPopup 30 70, FetchAnalysis 30 70,
                  ConsoleError e, SetContent p]"
    using fact [of "Responded True (Some (JObj [(''cached'', JBool True)]))"] u by simp
  define env where "env = JObj [(''cached'', JBool True), (''data'', createDemoData 31 72 (fixed_source 0) [])]"
  obtain p where p: "createPopupContent never_a_number (createDemoData 31 72 (fixed_source 0) []) (JBool True) = Inr p"
    using popup_well_formed [OF well_formed_demo, of never_a_number 31 72 "fixed_source 0" "[]" "JBool True"]
    by blast
  have g: "get_prop env ''cached'' = Inr (JBool True)"
    "get_prop env ''data'' = Inr (createDemoData 31 72 (fixed_source 0) [])"
    by (simp_all add: env_def)
  have "click_handler never_a_number 30 70 (Responded True (Some env)) (fixed_source (1 / 2)) [] =
             Inr [PreventDefault, StopPropagation, OpenLoadingPopup 30 70, FetchAnalysis 30 70,
                  SetContent p]"
    using fact [of "Responded True (Some env)"] g p by blast
  then have r3: "\<exists>p. createPopupContent never_a_number (createDemoData 31 72 (fixed_source 0) []) (JBool True) = Inr p
         \<and> click_handler never_a_number 30 70
               (Responded True (Some (JObj [(''cached'', JBool True),
                                            (''data'', createDemoData 31 72 (fixed_source 0) [])])))
               (fixed_source (1 / 2)) [] =
             Inr [PreventDefault, StopPropagation, OpenLoadingPopup 30 70, FetchAnalysis 30 70,
                  SetContent p]"
    using p unfolding env_def by blast
  show ?thesis
    using inside r1 u r2 r3 by (intro conjI)
qed

text \<open>
  C1 as the specification words it fails: the script does not check the envelope.  An
  envelope that lacks the region, every weather and soil figure and the crop
  recommendations is rendered as it came, with the cached badge, and the demo data is
  not used.
\<close>

theorem malformed_envelope_counterexample:
  "\<not> click_outside 30 70
   \<and> \<not> well_formed_envelope
         (JObj [(''cached'', JBool True),
                (''data'', JObj [(''location'', JObj [(''latitude'', JNum 30), (''longitude'', JNum 70)]),
                                 (''weather'', JObj []), (''soil'', JObj [])])])
   \<and> click_handler never_a_number 30 70
        (Responded True (Some
           (JObj [(''cached'', JBool True),
                  (''data'', JObj [(''location'', JObj [(''latitude'', JNum 30), (''longitude'', JNum 70)]),
                                   (''weather'', JObj []), (''soil'', JObj [])])])))
        (fixed_source 0) [] =
       Inr [PreventDefault, StopPropagation, OpenLoadingPopup 30 70, FetchAnalysis 30 70,
            SetContent \<lparr> p_cacheBadge = CachedBadge, p_region = JStr ''Pakistan'',
                         p_latitude = 30, p_longitude = 70,
                         p_temperature = JUndefined, p_humidity = JUndefined,
                         p_rainfall = JUndefined, p_wind_speed = JUndefined,
                         p_ph = JUndefined, p_soil_type = JUndefined, p_nitrogen = JUndefined,
                         p_phosphorus = JUndefined, p_potassium = JUndefined,
                         p_organic_matter = JUndefined, p_cropsHtml = NoSuitableCrops \<rparr>]
   \<and> createPopupContent never_a_number (createDemoData 30 70 (fixed_source 0) []) (JBool False) =
       Inr \<lparr> p_cacheBadge = NoBadge, p_region = JStr ''Sindh'',
             p_latitude = 30, p_longitude = 70,
             p_temperature = JNum 25, p_humidity = JNum 40,
             p_rainfall = JNum 0, p_wind_speed = JNum 5,
             p_ph = JNum 6.5, p_soil_type = JStr ''Alluvial'', p_nitrogen = JNum 0.02,
             p_phosphorus = JNum 8, p_potassium = JNum 100,
             p_organic_matter = JNum 1,
             p_cropsHtml = CropEntries [
               \<lparr> e_crop_name = JStr ''Wheat'', e_suitability_score = JNum 7,
                 e_irrigation_need = JNum 450, e_fertilizer_npk = JStr ''120-60-60'',
                 e_season = JStr ''Rabi'', e_plant = Joined [JStr ''November'', JStr ''December''] \<rparr>,
               \<lparr> e_crop_name = JStr ''Rice'', e_suitability_score = JNum 6,
                 e_irrigation_need = JNum 1200, e_fertilizer_npk = JStr ''120-90-60'',
                 e_season = JStr ''Kharif'', e_plant = Joined [JStr ''May'', JStr ''June''] \<rparr>] \<rparr>"
proof -
  have a: "\<not> click_outside 30 70"
    by (simp add: click_outside_def)
  have b: "\<not> well_formed_envelope
         (JObj [(''cached'', JBool True),
                (''data'', JObj [(''location'', JObj [(''latitude'', JNum 30), (''longitude'', JNum 70)]),
                                 (''weather'', JObj []), (''soil'', JObj [])])])"
    by (simp add: well_formed_envelope_def well_formed_result_def field_def)
  have c: "click_handler never_a_number 30 70
        (Responded True (Some
           (JObj [(''cached'', JBool True),
                  (''data'', JObj [(''location'', JObj [(''latitude'', JNum 30), (''longitude'', JNum 70)]),
                                   (''weather'', JObj []), (''soil'', JObj [])])])))
        (fixed_source 0) [] =
       Inr [PreventDefault, StopPropagation, OpenLoadingPopup 30 70, FetchAnalysis 30 70,
            SetContent \<lparr> p_cacheBadge = CachedBadge, p_region = JStr ''Pakistan'',
                         p_latitude = 30, p_longitude = 70,
                         p_temperature = JUndefined, p_humidity = JUndefined,
                         p_rainfall = JUndefined, p_wind_speed = JUndefined,
                         p_ph = JUndefined, p_soil_type = JUndefined, p_nitrogen = JUndefined,
                         p_phosphorus = JUndefined, p_potassium = JUndefined,
                         p_organic_matter = JUndefined, p_cropsHtml = NoSuitableCrops \<rparr>]"
    by (simp add: click_handler_def a try_block_def createPopupContent_def crops_block_def Let_def
        hole_def interpolate_def)
  have d: "createPopupContent never_a_number (createDemoData 30 70 (fixed_source 0) []) (JBool False) =
       Inr \<lparr> p_cacheBadge = NoBadge, p_region = JStr ''Sindh'',
             p_latitude = 30, p_longitude = 70,
             p_temperature = JNum 25, p_humidity = JNum 40,
             p_rainfall = JNum 0, p_wind_speed = JNum 5,
             p_ph = JNum 6.5, p_soil_type = JStr ''Alluvial'', p_nitrogen = JNum 0.02,
             p_phosphorus = JNum 8, p_potassium = JNum 100,
             p_organic_matter = JNum 1,
             p_cropsHtml = CropEntries [
               \<lparr> e_crop_name = JStr ''Wheat'', e_suitability_score = JNum 7,
                 e_irrigation_need = JNum 450, e_fertilizer_npk = JStr ''120-60-60'',
                 e_season = JStr ''Rabi'', e_plant = Joined [JStr ''November'', JStr ''December''] \<rparr>,
               \<lparr> e_crop_name = JStr ''Rice'', e_suitability_score = JNum 6,
                 e_irrigation_need = JNum 1200, e_fertilizer_npk = JStr ''120-90-60'',
                 e_season = JStr ''Kharif'', e_plant = Joined [JStr ''May'', JStr ''June''] \<rparr>] \<rparr>"
    by (simp add: createDemoData_def createPopupContent_def crops_block_def render_crop_def Let_def
        hole_def interpolate_def)
  show ?thesis
    using a b c d by (intro conjI)
qed

text \<open>
  C2.  A point passes the geofence exactly when its latitude lies in the closed interval
  from 23.69 to 36.98 and its longitude in the closed interval from 60.87 to 75.85.
  The click handler (which tests for rejection) and the coordinate search (which tests
  for acceptance) decide the same membership, boundary values included.
\<close>

theorem geofence_closed_box:
  "(\<not> click_outside lat lon \<longleftrightarrow> lat \<in> {23.69 .. 36.98} \<and> lon \<in> {60.87 .. 75.85})
   \<and> (search_inside lat lon \<longleftrightarrow> lat \<in> {23.69 .. 36.98} \<and> lon \<in> {60.87 .. 75.85})"
  by (auto simp: click_outside_def search_inside_def)

theorem geofence_closed_box_witness:
  "\<not> click_outside 23.69 60.87 \<and> search_inside 23.69 60.87
   \<and> \<not> click_outside 36.98 75.85 \<and> search_inside 36.98 75.85
   \<and> click_outside 23.68 70 \<and> \<not> search_inside 23.68 70
   \<and> click_outside 30 75.86 \<and> \<not> search_inside 30 75.86"
  using geofence_closed_box [of "23.69" "60.87"] geofence_closed_box [of "36.98" "75.85"]
    geofence_closed_box [of "23.68" 70] geofence_closed_box [of 30 "75.86"]
  by simp

text \<open>
  C3.  The demo data always holds exactly two crop recommendations, Wheat and then
  Rice, with fixed irrigation need, fertilizer, season and planting months; whatever
  the random source returns, the score of Wheat lies between 7 and 9 and the score of
  Rice between 6 and 8.  \<^const>\<open>createDemoData\<close> has no failing path: it is a total
  function into values.
\<close>

theorem demo_crops:
  assumes "random_source rnd"
  shows "\<exists>wheat rice.
     get_prop (createDemoData lat lon rnd now) ''crop_recommendations'' =
       Inr (JArr [
         JObj [(''crop_name'', JStr ''Wheat''), (''suitability_score'', JNum wheat),
               (''irrigation_need'', JNum 450), (''fertilizer_npk'', JStr ''120-60-60''),
               (''season'', JStr ''Rabi''),
               (''planting_months'', JArr [JStr ''November'', JStr ''December''])],
         JObj [(''crop_name'', JStr ''Rice''), (''suitability_score'', JNum rice),
               (''irrigation_need'', JNum 1200), (''fertilizer_npk'', JStr ''120-90-60''),
               (''season'', JStr ''Kharif''),
               (''planting_months'', JArr [JStr ''May'', JStr ''June''])]])
     \<and> 7 \<le> wheat \<and> wheat \<le> 9 \<and> 6 \<le> rice \<and> rice \<le> 8"
proof -
  have "0 \<le> rnd 9" "rnd 9 < 1" "0 \<le> rnd 10" "rnd 10 < 1"
    using assms by (simp_all add: random_source_def)
  then have "7 \<le> 7 + rnd 9 * 2 \<and> 7 + rnd 9 * 2 \<le> 9 \<and> 6 \<le> 6 + rnd 10 * 2 \<and> 6 + rnd 10 * 2 \<le> 8"
    by simp
  then show ?thesis
    by (simp add: createDemoData_def)
qed

theorem demo_crops_witness:
  "random_source (fixed_source (1 / 2))
   \<and> (\<exists>wheat rice.
     get_prop (createDemoData 30 70 (fixed_source (1 / 2)) ''2024-01-01T00:00:00.000Z'') ''crop_recommendations'' =
       Inr (JArr [
         JObj [(''crop_name'', JStr ''Wheat''), (''suitability_score'', JNum wheat),
               (''irrigation_need'', JNum 450), (''fertilizer_npk'', JStr ''120-60-60''),
               (''season'', JStr ''Rabi''),
               (''planting_months'', JArr [JStr ''November'', JStr ''December''])],
         JObj [(''crop_name'', JStr ''Rice''), (''suitability_score'', JNum rice),
               (''irrigation_need'', JNum 1200), (''fertilizer_npk'', JStr ''120-90-60''),
               (''season'', JStr ''Kharif''),
               (''planting_months'', JArr [JStr ''May'', JStr ''June''])]])
     \<and> 7 \<le> wheat \<and> wheat \<le> 9 \<and> 6 \<le> rice \<and> rice \<le> 8)"
proof -
  have r: "random_source (fixed_source (1 / 2))"
    by (simp add: random_source_def)
  show ?thesis
    using r demo_crops [OF r, of 30 70 "''2024-01-01T00:00:00.000Z''"] by blast
qed

text \<open>
  C4.  When the trimmed query matches the coordinate pattern, both captures parse as
  numbers and the search takes the coordinate branch whatever the registry holds: it
  centres the map on the pair when the pair is inside the geofence, and otherwise
  reports that the coordinates are outside the boundaries.  No city is looked up.
\<close>

theorem coordinate_query:
  assumes "coordMatch (trim input) = Some (g1, g2)"
  shows "\<exists>lat lon. parseFloat g1 = Some lat \<and> parseFloat g2 = Some lon
     \<and> (\<forall>cities. searchLocation cities input =
          (if search_inside lat lon then
             [PreventDefault, SetView lat lon 12, AddMarker lat lon (CoordinatesText lat lon),
              ClearSearchInput]
           else
             [PreventDefault, Alert ''Coordinates outside Pakistan boundaries!'', ClearSearchInput]))"
  using assms by (rule search_coordinates)

theorem coordinate_query_witness:
  "coordMatch (trim ''100, 100'') = Some (''100'', ''100'')
   \<and> searchLocation majorCities ''100, 100'' =
       [PreventDefault, Alert ''Coordinates outside Pakistan boundaries!'', ClearSearchInput]
   \<and> coordMatch (trim ''31.5804, 74.3587'') = Some (''31.5804'', ''74.3587'')
   \<and> searchLocation majorCities ''31.5804, 74.3587'' =
       [PreventDefault, SetView 31.5804 74.3587 12,
        AddMarker 31.5804 74.3587 (CoordinatesText 31.5804 74.3587), ClearSearchInput]"
proof -
  have m: "coordMatch (trim ''100, 100'') = Some (''100'', ''100'')" by (rule m100)
  have "\<not> search_inside 100 100" by (simp add: search_inside_def)
  then have out: "searchLocation majorCities ''100, 100'' =
       [PreventDefault, Alert ''Coordinates outside Pakistan boundaries!'', ClearSearchInput]"
    using coordinate_query [OF m] p100 by auto
  have m': "coordMatch (trim ''31.5804, 74.3587'') = Some (''31.5804'', ''74.3587'')"
    by (rule match_lahore_coordinates)
  obtain lat lon where p: "parseFloat ''31.5804'' = Some lat" "parseFloat ''74.3587'' = Some lon"
    and s: "\<forall>cities. searchLocation cities ''31.5804, 74.3587'' =
          (if search_inside lat lon then
             [PreventDefault, SetView lat lon 12, AddMarker lat lon (CoordinatesText lat lon),
              ClearSearchInput]
           else
             [PreventDefault, Alert ''Coordinates outside Pakistan boundaries!'', ClearSearchInput])"
    using coordinate_query [OF m'] by (elim exE conjE)
  have l: "lat = 31.5804" "lon = 74.3587"
    using p parse_lahore_lat parse_lahore_lon by simp_all
  have "search_inside 31.5804 74.3587" by (simp add: search_inside_def)
  then have inside: "searchLocation majorCities ''31.5804, 74.3587'' =
       [PreventDefault, SetView 31.5804 74.3587 12,
        AddMarker 31.5804 74.3587 (CoordinatesText 31.5804 74.3587), ClearSearchInput]"
    using s unfolding l by simp
  show ?thesis
    using m out m' inside by (intro conjI)
qed

text \<open>
  C5.  For a query that is not empty and does not match the coordinate pattern, the
  search finds the first city of the registry whose name contains the trimmed query up
  to case, and centres the map on it; when no name contains the query it reports that
  the city was not found.  The query \<^verbatim>\<open>lahore\<close> finds Lahore.
\<close>

theorem city_lookup:
  assumes "trim input \<noteq> []" and "coordMatch (trim input) = None"
  shows "((\<forall>c \<in> set cities. \<not> ci_contains (c_name c) (trim input)) \<longrightarrow>
           searchLocation cities input =
             [PreventDefault, Alert ''City not found! Try: Karachi, Lahore, Islamabad, etc.'',
              ClearSearchInput])
       \<and> (\<forall>before city after.
             cities = before @ city # after \<and> ci_contains (c_name city) (trim input)
             \<and> (\<forall>c \<in> set before. \<not> ci_contains (c_name c) (trim input)) \<longrightarrow>
           searchLocation cities input =
             [PreventDefault, SetView (c_lat city) (c_lon city) 10,
              AddMarker (c_lat city) (c_lon city) (CityText (c_name city) (c_province city)),
              ClearSearchInput])"
proof (intro conjI allI impI)
  assume "\<forall>c \<in> set cities. \<not> ci_contains (c_name c) (trim input)"
  then have "find (\<lambda>c. js_includes (toLowerCase (c_name c)) (toLowerCase (trim input))) cities = None"
    by (intro find_none) (simp add: includes_ci)
  then show "searchLocation cities input =
             [PreventDefault, Alert ''City not found! Try: Karachi, Lahore, Islamabad, etc.'',
              ClearSearchInput]"
    using assms by (simp add: searchLocation_def)
next
  fix before city after
  assume a: "cities = before @ city # after \<and> ci_contains (c_name city) (trim input)
             \<and> (\<forall>c \<in> set before. \<not> ci_contains (c_name c) (trim input))"
  then have "find (\<lambda>c. js_includes (toLowerCase (c_name c)) (toLowerCase (trim input))) cities = Some city"
    using find_first [of before "\<lambda>c. js_includes (toLowerCase (c_name c)) (toLowerCase (trim input))" city after]
    by (simp add: includes_ci)
  then show "searchLocation cities input =
             [PreventDefault, SetView (c_lat city) (c_lon city) 10,
              AddMarker (c_lat city) (c_lon city) (CityText (c_name city) (c_province city)),
              ClearSearchInput]"
    using assms by (simp add: searchLocation_def)
qed

theorem city_lookup_witness:
  "trim ''lahore'' \<noteq> [] \<and> coordMatch (trim ''lahore'') = None
   \<and> searchLocation majorCities ''lahore'' =
       [PreventDefault, SetView 31.5804 74.3587 10,
        AddMarker 31.5804 74.3587 (CityText ''Lahore'' ''Punjab''), ClearSearchInput]
   \<and> trim ''xyz'' \<noteq> [] \<and> coordMatch (trim ''xyz'') = None
   \<and> searchLocation [] ''xyz'' =
       [PreventDefault, Alert ''City not found! Try: Karachi, Lahore, Islamabad, etc.'',
        ClearSearchInput]"
proof -
  have t: "trim ''lahore'' \<noteq> []" by (simp add: lahore_trim)
  have m: "coordMatch (trim ''lahore'') = None" by (simp add: lahore_trim lahore_no_match)
  define karachi where "karachi = \<lparr> c_name = ''Karachi'', c_lat = 24.8607, c_lon = 67.0011, c_province = ''Sindh'' \<rparr>"
  define lahore where "lahore = \<lparr> c_name = ''Lahore'', c_lat = 31.5804, c_lon = 74.3587, c_province = ''Punjab'' \<rparr>"
  have split: "majorCities = [karachi] @ lahore # drop 2 majorCities"
    by (simp add: majorCities_def karachi_def lahore_def)
  have yes: "ci_contains (c_name lahore) (trim ''lahore'')"
    using lahore_in_lahore by (simp add: includes_ci lahore_trim lahore_def)
  have no: "\<forall>c \<in> set [karachi]. \<not> ci_contains (c_name c) (trim ''lahore'')"
    using lahore_not_in_karachi by (simp add: includes_ci lahore_trim karachi_def)
  have found: "searchLocation majorCities ''lahore'' =
       [PreventDefault, SetView (c_lat lahore) (c_lon lahore) 10,
        AddMarker (c_lat lahore) (c_lon lahore) (CityText (c_name lahore) (c_province lahore)),
        ClearSearchInput]"
    using city_lookup [OF t m, of majorCities] split yes no by blast
  have t2: "trim ''xyz'' \<noteq> []" by code_simp
  have m2: "coordMatch (trim ''xyz'') = None" by code_simp
  have none: "searchLocation [] ''xyz'' =
       [PreventDefault, Alert ''City not found! Try: Karachi, Lahore, Islamabad, etc.'',
        ClearSearchInput]"
    using city_lookup [OF t2 m2, of "[]"] by simp
  show ?thesis
    using t m found t2 m2 none by (simp add: lahore_def)
qed

text \<open>
  C6.  For every well-formed analysis result the popup is rendered.  When the crop
  recommendations are absent or empty it shows the block \<^verbatim>\<open>No suitable crops found for
  this location.\<close> and no list; when there are recommendations it shows one entry for
  each, in order.
\<close>

theorem crops_placeholder_or_entries:
  assumes "well_formed_result d"
  shows "\<exists>p. createPopupContent to_number d cached = Inr p
     \<and> (absent (field d ''crop_recommendations'') \<or> field d ''crop_recommendations'' = JArr [] \<longrightarrow>
          p_cropsHtml p = NoSuitableCrops)
     \<and> (\<forall>crops. field d ''crop_recommendations'' = JArr crops \<and> crops \<noteq> [] \<longrightarrow>
          p_cropsHtml p = CropEntries (map entry_of crops)
          \<and> length (map entry_of crops) = length crops)"
proof -
  obtain p where p: "createPopupContent to_number d cached = Inr p"
    "p_cropsHtml p = (case field d ''crop_recommendations'' of JArr [] \<Rightarrow> NoSuitableCrops
            | JArr (c # cs) \<Rightarrow> CropEntries (map entry_of (c # cs))
            | _ \<Rightarrow> NoSuitableCrops)"
    using popup_well_formed [OF assms, of to_number cached] by blast
  have "absent (field d ''crop_recommendations'') \<or> field d ''crop_recommendations'' = JArr [] \<longrightarrow>
          p_cropsHtml p = NoSuitableCrops"
    using p(2) by (cases "field d ''crop_recommendations''") auto
  moreover have "\<forall>crops. field d ''crop_recommendations'' = JArr crops \<and> crops \<noteq> [] \<longrightarrow>
          p_cropsHtml p = CropEntries (map entry_of crops)
          \<and> length (map entry_of crops) = length crops"
    using p(2) by (auto split: list.splits)
  ultimately show ?thesis using p(1) by blast
qed

theorem crops_placeholder_or_entries_witness:
  "well_formed_result (createDemoData 30 70 (fixed_source (1 / 2)) [])
   \<and> (\<exists>p. createPopupContent never_a_number (createDemoData 30 70 (fixed_source (1 / 2)) []) (JBool False) = Inr p
        \<and> p_cropsHtml p = CropEntries [
               \<lparr> e_crop_name = JStr ''Wheat'', e_suitability_score = JNum 8,
                 e_irrigation_need = JNum 450, e_fertilizer_npk = JStr ''120-60-60'',
                 e_season = JStr ''Rabi'', e_plant = Joined [JStr ''November'', JStr ''December''] \<rparr>,
               \<lparr> e_crop_name = JStr ''Rice'', e_suitability_score = JNum 7,
                 e_irrigation_need = JNum 1200, e_fertilizer_npk = JStr ''120-90-60'',
                 e_season = JStr ''Kharif'', e_plant = Joined [JStr ''May'', JStr ''June''] \<rparr>])
   \<and> well_formed_result
        (JObj [(''location'', JObj [(''latitude'', JNum 30), (''longitude'', JNum 70),
                                    (''region'', JStr ''Sindh'')]),
               (''weather'', JObj [(''temperature'', JNum 31), (''humidity'', JNum 50),
                                   (''rainfall'', JNum 2), (''wind_speed'', JNum 9)]),
               (''soil'', JObj [(''ph'', JNum 7), (''soil_type'', JStr ''Alluvial''),
                                (''nitrogen'', JNum 0.03), (''phosphorus'', JNum 10),
                                (''potassium'', JNum 120), (''organic_matter'', JNum 2)]),
               (''crop_recommendations'', JArr [])])
   \<and> (\<exists>p. createPopupContent never_a_number
        (JObj [(''location'', JObj [(''latitude'', JNum 30), (''longitude'', JNum 70),
                                    (''region'', JStr ''Sindh'')]),
               (''weather'', JObj [(''temperature'', JNum 31), (''humidity'', JNum 50),
                                   (''rainfall'', JNum 2), (''wind_speed'', JNum 9)]),
               (''soil'', JObj [(''ph'', JNum 7), (''soil_type'', JStr ''Alluvial''),
                                (''nitrogen'', JNum 0.03), (''phosphorus'', JNum 10),
                                (''potassium'', JNum 120), (''organic_matter'', JNum 2)]),
               (''crop_recommendations'', JArr [])]) (JBool True) = Inr p
        \<and> p_cropsHtml p = NoSuitableCrops)"
proof -
  have w1: "well_formed_result (createDemoData 30 70 (fixed_source (1 / 2)) [])"
    by (rule well_formed_demo)
  have crops1: "field (createDemoData 30 70 (fixed_source (1 / 2)) []) ''crop_recommendations'' =
      JArr [
         JObj [(''crop_name'', JStr ''Wheat''), (''suitability_score'', JNum 8),
               (''irrigation_need'', JNum 450), (''fertilizer_npk'', JStr ''120-60-60''),
               (''season'', JStr ''Rabi''),
               (''planting_months'', JArr [JStr ''November'', JStr ''December''])],
         JObj [(''crop_name'', JStr ''Rice''), (''suitability_score'', JNum 7),
               (''irrigation_need'', JNum 1200), (''fertilizer_npk'', JStr ''120-90-60''),
               (''season'', JStr ''Kharif''),
               (''planting_months'', JArr [JStr ''May'', JStr ''June''])]]"
    by (simp add: createDemoData_def field_def)
  define empty_result where "empty_result =
        JObj [(''location'', JObj [(''latitude'', JNum 30), (''longitude'', JNum 70),
                                    (''region'', JStr ''Sindh'')]),
               (''weather'', JObj [(''temperature'', JNum 31), (''humidity'', JNum 50),
                                   (''rainfall'', JNum 2), (''wind_speed'', JNum 9)]),
               (''soil'', JObj [(''ph'', JNum 7), (''soil_type'', JStr ''Alluvial''),
                                (''nitrogen'', JNum 0.03), (''phosphorus'', JNum 10),
                                (''potassium'', JNum 120), (''organic_matter'', JNum 2)]),
               (''crop_recommendations'', JArr [])]"
  have w2: "well_formed_result empty_result"
    by (simp add: empty_result_def well_formed_result_def field_def)
  have crops2: "field empty_result ''crop_recommendations'' = JArr []"
    by (simp add: empty_result_def field_def)
  define two_crops where "two_crops = [
         JObj [(''crop_name'', JStr ''Wheat''), (''suitability_score'', JNum 8),
               (''irrigation_need'', JNum 450), (''fertilizer_npk'', JStr ''120-60-60''),
               (''season'', JStr ''Rabi''),
               (''planting_months'', JArr [JStr ''November'', JStr ''December''])],
         JObj [(''crop_name'', JStr ''Rice''), (''suitability_score'', JNum 7),
               (''irrigation_need'', JNum 1200), (''fertilizer_npk'', JStr ''120-90-60''),
               (''season'', JStr ''Kharif''),
               (''planting_months'', JArr [JStr ''May'', JStr ''June''])]]"
  have entries: "map entry_of two_crops = [
               \<lparr> e_crop_name = JStr ''Wheat'', e_suitability_score = JNum 8,
                 e_irrigation_need = JNum 450, e_fertilizer_npk = JStr ''120-60-60'',
                 e_season = JStr ''Rabi'', e_plant = Joined [JStr ''November'', JStr ''December''] \<rparr>,
               \<lparr> e_crop_name = JStr ''Rice'', e_suitability_score = JNum 7,
                 e_irrigation_need = JNum 1200, e_fertilizer_npk = JStr ''120-90-60'',
                 e_season = JStr ''Kharif'', e_plant = Joined [JStr ''May'', JStr ''June''] \<rparr>]"
    by (simp add: two_crops_def entry_of_def field_def)
  have here: "field (createDemoData 30 70 (fixed_source (1 / 2)) []) ''crop_recommendations'' = JArr two_crops
      \<and> two_crops \<noteq> []"
    using crops1 by (simp add: two_crops_def)
  obtain p where p: "createPopupContent never_a_number (createDemoData 30 70 (fixed_source (1 / 2)) []) (JBool False) = Inr p"
    and q: "\<forall>crops. field (createDemoData 30 70 (fixed_source (1 / 2)) []) ''crop_recommendations'' = JArr crops
               \<and> crops \<noteq> [] \<longrightarrow>
          p_cropsHtml p = CropEntries (map entry_of crops)
          \<and> length (map entry_of crops) = length crops"
    using crops_placeholder_or_entries [OF w1, of never_a_number "JBool False"] by (elim exE conjE)
  have "p_cropsHtml p = CropEntries (map entry_of two_crops)"
    using q here by blast
  then have r1: "\<exists>p. createPopupContent never_a_number (createDemoData 30 70 (fixed_source (1 / 2)) []) (JBool False) = Inr p
        \<and> p_cropsHtml p = CropEntries [
               \<lparr> e_crop_name = JStr ''Wheat'', e_suitability_score = JNum 8,
                 e_irrigation_need = JNum 450, e_fertilizer_npk = JStr ''120-60-60'',
                 e_season = JStr ''Rabi'', e_plant = Joined [JStr ''November'', JStr ''December''] \<rparr>,
               \<lparr> e_crop_name = JStr ''Rice'', e_suitability_score = JNum 7,
                 e_irrigation_need = JNum 1200, e_fertilizer_npk = JStr ''120-90-60'',
                 e_season = JStr ''Kharif'', e_plant = Joined [JStr ''May'', JStr ''June''] \<rparr>]"
    using p unfolding entries by blast
  have r2: "\<exists>p. createPopupContent never_a_number empty_result (JBool True) = Inr p
        \<and> p_cropsHtml p = NoSuitableCrops"
    using crops_placeholder_or_entries [OF w2, of never_a_number "JBool True"]
    by (simp add: crops2)
  show ?thesis
    using w1 r1 w2 r2 unfolding empty_result_def by (intro conjI)
qed

text \<open>
  C7.  The region of the demo data follows from the latitude alone: Punjab above 31,
  Sindh above 27 and up to 31, Balochistan up to 27.  Neither the longitude nor the
  random source nor the clock changes it.
\<close>

theorem demo_region_by_latitude:
  "(lat > 31 \<longrightarrow> region_of (createDemoData lat lon rnd now) = Inr (JStr ''Punjab''))
   \<and> (lat \<le> 31 \<and> lat > 27 \<longrightarrow> region_of (createDemoData lat lon rnd now) = Inr (JStr ''Sindh''))
   \<and> (lat \<le> 27 \<longrightarrow> region_of (createDemoData lat lon rnd now) = Inr (JStr ''Balochistan''))
   \<and> region_of (createDemoData lat lon rnd now) = region_of (createDemoData lat lon' rnd' now')"
  by (simp add: region_of_def createDemoData_def ebind_def)

theorem demo_region_by_latitude_witness:
  "region_of (createDemoData 31.5 74 (fixed_source 0) []) = Inr (JStr ''Punjab'')
   \<and> region_of (createDemoData 31 74 (fixed_source 0) []) = Inr (JStr ''Sindh'')
   \<and> region_of (createDemoData 27 61 (fixed_source 0) []) = Inr (JStr ''Balochistan'')"
  using demo_region_by_latitude [of "31.5" 74 "fixed_source 0" "[]"]
    demo_region_by_latitude [of 31 74 "fixed_source 0" "[]"]
    demo_region_by_latitude [of 27 61 "fixed_source 0" "[]"]
  by simp

text \<open>
  C8, as the script has it.  A query that is empty once trimmed ends the search at
  line 191: the default action of the event is prevented and nothing else happens.  No
  message is shown, the registry is not read, the map is not moved and the search box
  is not cleared.
\<close>

theorem empty_query_is_silent:
  "trim input = [] \<Longrightarrow>
     searchLocation cities input = [PreventDefault] \<and> alerts (searchLocation cities input) = []"
  by (simp add: searchLocation_def)

theorem empty_query_is_silent_witness:
  "trim [CHR 0x20, CHR 0x09, CHR 0x20] = []
   \<and> searchLocation majorCities [CHR 0x20, CHR 0x09, CHR 0x20] = [PreventDefault]
   \<and> alerts (searchLocation majorCities [CHR 0x20, CHR 0x09, CHR 0x20]) = []"
proof -
  have e: "trim [CHR 0x20, CHR 0x09, CHR 0x20] = []"
    by (simp add: trim_def is_space_def)
  show ?thesis
    using e empty_query_is_silent [OF e, of majorCities] by simp
qed

text \<open>
  C8 as the specification words it fails: on the empty query the user receives no
  message at all.
\<close>

theorem empty_query_message_counterexample:
  "trim [] = [] \<and> alerts (searchLocation majorCities []) = []"
  by (simp add: trim_def searchLocation_def)

text \<open>
  C9.  The pattern is not anchored.  A query that holds, anywhere, a number, a comma,
  optional white space and a number takes the coordinate branch, whatever the registry
  holds and whatever text surrounds the pair.  The pair used is the first one: no pair
  starts further left in the trimmed query, and of the pairs that start there it takes
  the same first number and the longest second number.
\<close>

theorem embedded_pair:
  assumes "holds_pair input k n1 n2"
  shows "\<exists>j g1 g2 lat lon.
       coordMatch (trim input) = Some (g1, g2)
     \<and> holds_pair (trim input) j g1 g2
     \<and> (\<forall>j' m1 m2. holds_pair (trim input) j' m1 m2 \<longrightarrow>
            j \<le> j' \<and> (j' = j \<longrightarrow> m1 = g1 \<and> prefix m2 g2))
     \<and> parseFloat g1 = Some lat \<and> parseFloat g2 = Some lon
     \<and> (\<forall>cities. searchLocation cities input =
          (if search_inside lat lon then
             [PreventDefault, SetView lat lon 12, AddMarker lat lon (CoordinatesText lat lon),
              ClearSearchInput]
           else
             [PreventDefault, Alert ''Coordinates outside Pakistan boundaries!'', ClearSearchInput]))"
proof -
  obtain k' where "holds_pair (trim input) k' n1 n2"
    using holds_pair_trim [OF assms] by blast
  then obtain g1 g2 where m: "coordMatch (trim input) = Some (g1, g2)"
    using coordMatch_complete by blast
  obtain j where j: "holds_pair (trim input) j g1 g2"
    "\<forall>j' m1 m2. holds_pair (trim input) j' m1 m2 \<longrightarrow> j \<le> j' \<and> (j' = j \<longrightarrow> m1 = g1 \<and> prefix m2 g2)"
    using coordMatch_first_pair [OF m] by blast
  obtain lat lon where "parseFloat g1 = Some lat \<and> parseFloat g2 = Some lon
     \<and> (\<forall>cities. searchLocation cities input =
          (if search_inside lat lon then
             [PreventDefault, SetView lat lon 12, AddMarker lat lon (CoordinatesText lat lon),
              ClearSearchInput]
           else
             [PreventDefault, Alert ''Coordinates outside Pakistan boundaries!'', ClearSearchInput]))"
    using search_coordinates [OF m] by blast
  then show ?thesis using m j by blast
qed

theorem embedded_pair_witness:
  "holds_pair ''Lahore 30.1,70.2 now'' 7 ''30.1'' ''70.2''
   \<and> searchLocation majorCities ''Lahore 30.1,70.2 now'' =
       [PreventDefault, SetView 30.1 70.2 12, AddMarker 30.1 70.2 (CoordinatesText 30.1 70.2),
        ClearSearchInput]"
proof -
  obtain g1 g2 lat lon where m: "coordMatch (trim ''Lahore 30.1,70.2 now'') = Some (g1, g2)"
    and p: "parseFloat g1 = Some lat" "parseFloat g2 = Some lon"
    and s: "\<forall>cities. searchLocation cities ''Lahore 30.1,70.2 now'' =
          (if search_inside lat lon then
             [PreventDefault, SetView lat lon 12, AddMarker lat lon (CoordinatesText lat lon),
              ClearSearchInput]
           else
             [PreventDefault, Alert ''Coordinates outside Pakistan boundaries!'', ClearSearchInput])"
    using embedded_pair [OF pair_after_lahore] by (elim exE conjE)
  have g: "g1 = ''30.1''" "g2 = ''70.2''"
    using m match_after_lahore by simp_all
  have l: "lat = 30.1" "lon = 70.2"
    using p parse_30_1 parse_70_2 unfolding g by simp_all
  have "search_inside 30.1 70.2" by (simp add: search_inside_def)
  then have "searchLocation majorCities ''Lahore 30.1,70.2 now'' =
       [PreventDefault, SetView 30.1 70.2 12, AddMarker 30.1 70.2 (CoordinatesText 30.1 70.2),
        ClearSearchInput]"
    using s unfolding l by simp
  then show ?thesis
    using pair_after_lahore by simp
qed

text \<open>
  C10.  The registry holds eight cities, none of whose names contains
  \<^verbatim>\<open>islamabad\<close>; so the search for \<^verbatim>\<open>Islamabad\<close> ends in the not-found message, the
  message that itself suggests \<^verbatim>\<open>Islamabad\<close>.
\<close>

theorem islamabad_not_found:
  "map c_name majorCities =
     [''Karachi'', ''Lahore'', ''Faisalabad'', ''Rawalpindi'', ''Multan'', ''Hyderabad'',
      ''Peshawar'', ''Quetta'']
   \<and> filter (\<lambda>c. js_includes (toLowerCase (c_name c)) (toLowerCase ''Islamabad'')) majorCities = []
   \<and> searchLocation majorCities ''Islamabad'' =
       [PreventDefault, Alert ''City not found! Try: Karachi, Lahore, Islamabad, etc.'',
        ClearSearchInput]
   \<and> js_includes ''City not found! Try: Karachi, Lahore, Islamabad, etc.'' ''Islamabad''"
proof -
  have names: "map c_name majorCities =
     [''Karachi'', ''Lahore'', ''Faisalabad'', ''Rawalpindi'', ''Multan'', ''Hyderabad'',
      ''Peshawar'', ''Quetta'']"
    by (simp add: majorCities_def)
  have none: "filter (\<lambda>c. js_includes (toLowerCase (c_name c)) (toLowerCase ''Islamabad'')) majorCities = []"
    by code_simp
  have search: "searchLocation majorCities ''Islamabad'' =
       [PreventDefault, Alert ''City not found! Try: Karachi, Lahore, Islamabad, etc.'',
        ClearSearchInput]"
    by code_simp
  have msg: "js_includes ''City not found! Try: Karachi, Lahore, Islamabad, etc.'' ''Islamabad''"
    by code_simp
  show ?thesis
    using names none search msg by blast
qed

end
